theory Spec2Isabelle
  imports Main "HOL-Library.Multiset"
begin

section \<open>Go values the planner is built from\<close>

text \<open>
  A run of the planner either returns or panics. Every panic the source can raise is a
  value of \<open>panic\<close>, and a function that can panic returns \<open>panic + 'a\<close>
  (\<open>Inl\<close> the panic).
\<close>

datatype panic =
    IndexOutOfRange
  | SliceBoundsOutOfRange
  | FirstOfEmptySlice
  | NextWithoutHasNext

definition bindE :: "panic + 'a \<Rightarrow> ('a \<Rightarrow> panic + 'b) \<Rightarrow> panic + 'b" where
  "bindE m f = (case m of Inl e \<Rightarrow> Inl e | Inr x \<Rightarrow> f x)"

text \<open>
  Go's \<open>int\<close> (on a 64-bit platform) and \<open>int64\<close> are integers reduced to the signed
  64-bit range after every addition and subtraction.
\<close>

definition wrap64 :: "int \<Rightarrow> int" where
  "wrap64 x = (x + 2 ^ 63) mod 2 ^ 64 - 2 ^ 63"

definition add64 :: "int \<Rightarrow> int \<Rightarrow> int" where
  "add64 a b = wrap64 (a + b)"

definition sub64 :: "int \<Rightarrow> int \<Rightarrow> int" where
  "sub64 a b = wrap64 (a - b)"

text \<open>
  A Go slice is a window on a backing array: \<open>elems\<close> are the elements below its
  length, \<open>spare\<close> the array cells between its length and its capacity. A slice
  expression \<open>s[lo:hi]\<close> may reach into the spare cells; it panics only when
  \<open>0 \<le> lo \<le> hi \<le> cap(s)\<close> fails.
\<close>

record 'a go_slice =
  elems :: "'a list"
  spare :: "'a list"

definition nil_slice :: "'a go_slice" where
  "nil_slice = \<lparr>elems = [], spare = []\<rparr>"

definition go_len :: "'a go_slice \<Rightarrow> int" where
  "go_len s = int (length (elems s))"

definition go_cap :: "'a go_slice \<Rightarrow> int" where
  "go_cap s = int (length (elems s) + length (spare s))"

definition go_index :: "'a go_slice \<Rightarrow> int \<Rightarrow> panic + 'a" where
  "go_index s i =
     (if 0 \<le> i \<and> i < go_len s then Inr (elems s ! nat i) else Inl IndexOutOfRange)"

definition go_reslice :: "'a go_slice \<Rightarrow> int \<Rightarrow> int \<Rightarrow> panic + 'a go_slice" where
  "go_reslice s lo hi =
     (if 0 \<le> lo \<and> lo \<le> hi \<and> hi \<le> go_cap s
      then Inr \<lparr>elems = take (nat (hi - lo)) (drop (nat lo) (elems s @ spare s)),
                spare = drop (nat hi) (elems s @ spare s)\<rparr>
      else Inl SliceBoundsOutOfRange)"

text \<open>
  \<open>append(s, x)\<close> writes into the first spare cell when there is one. Otherwise the
  runtime allocates a zeroed array, whose capacity it chooses from the old capacity and
  the length needed (\<open>grow\<close>; at least the length needed), and copies the elements.
\<close>

definition go_append :: "(nat \<Rightarrow> nat \<Rightarrow> nat) \<Rightarrow> int go_slice \<Rightarrow> int \<Rightarrow> int go_slice" where
  "go_append grow s x =
     (case spare s of
        _ # rest \<Rightarrow> \<lparr>elems = elems s @ [x], spare = rest\<rparr>
      | [] \<Rightarrow> \<lparr>elems = elems s @ [x],
               spare = replicate (grow (length (elems s)) (Suc (length (elems s)))
                                   - Suc (length (elems s))) 0\<rparr>)"

text \<open>
  The capacity the gc runtime's \<open>growslice\<close> gives a slice of 8-byte elements that has
  outgrown a capacity below 256: the length needed when that is more than double the old
  capacity, double the old capacity otherwise. Appending one element at a time to an
  empty slice \<open>[]int{}\<close> so gives the capacities 1, 2, 4, 8, ...; these byte sizes are
  all allocation size classes, so no rounding is added.
\<close>

definition gc_growslice :: "nat \<Rightarrow> nat \<Rightarrow> nat" where
  "gc_growslice old_cap new_len = (if 2 * old_cap < new_len then new_len else 2 * old_cap)"

section \<open>slice\_it.go: the reversible slice iterator\<close>

record 'a SliceIterator =
  it_data :: "'a go_slice"
  it_length :: int
  it_index :: int
  it_reverse :: bool

definition NewSliceIterator :: "'a go_slice \<Rightarrow> bool \<Rightarrow> 'a SliceIterator" where
  "NewSliceIterator d rev_flag =
     \<lparr>it_data = d, it_length = go_len d,
      it_index = (if rev_flag then go_len d - 1 else 0), it_reverse = rev_flag\<rparr>"

definition Length :: "'a SliceIterator \<Rightarrow> int" where
  "Length it = it_length it"

definition HasNext :: "'a SliceIterator \<Rightarrow> bool" where
  "HasNext it = (if it_reverse it then it_index it \<ge> 0 else it_index it < go_len (it_data it))"

definition Next :: "'a SliceIterator \<Rightarrow> panic + ('a \<times> 'a SliceIterator)" where
  "Next it =
     (if \<not> HasNext it then Inl NextWithoutHasNext
      else bindE (go_index (it_data it) (it_index it)) (\<lambda>val.
             Inr (val, it\<lparr>it_index := (if it_reverse it then it_index it - 1
                                         else it_index it + 1)\<rparr>)))"

definition First :: "'a SliceIterator \<Rightarrow> panic + 'a" where
  "First it =
     (if it_length it = 0 then Inl FirstOfEmptySlice
      else if it_reverse it then go_index (it_data it) (it_length it - 1)
      else go_index (it_data it) 0)"

definition SliceIterator :: "'a SliceIterator \<Rightarrow> int \<Rightarrow> int \<Rightarrow> panic + 'a SliceIterator" where
  "SliceIterator it from_inclusive num_items =
     (if it_reverse it
      then bindE (go_reslice (it_data it)
                    (sub64 (sub64 (it_length it) from_inclusive) num_items)
                    (sub64 (it_length it) from_inclusive))
             (\<lambda>d. Inr (NewSliceIterator d (it_reverse it)))
      else bindE (go_reslice (it_data it) from_inclusive (add64 from_inclusive num_items))
             (\<lambda>d. Inr (NewSliceIterator d (it_reverse it))))"

definition Reset :: "'a SliceIterator \<Rightarrow> 'a SliceIterator" where
  "Reset it = it\<lparr>it_index := (if it_reverse it then it_length it - 1 else 0)\<rparr>"

text \<open>
  What is left to visit: the measure under which every loop over an iterator ends.
\<close>

definition it_remaining :: "'a SliceIterator \<Rightarrow> nat" where
  "it_remaining it =
     (if it_reverse it then nat (it_index it + 1) else nat (go_len (it_data it) - it_index it))"

text \<open>
  The values a loop \<open>for it.HasNext() { x := it.Next(); ... }\<close> visits, in order.
\<close>

function drain :: "'a SliceIterator \<Rightarrow> panic + 'a list" where
  "drain it =
     (if HasNext it
      then (case Next it of
              Inl e \<Rightarrow> Inl e
            | Inr (x, it') \<Rightarrow> (case drain it' of Inl e \<Rightarrow> Inl e | Inr xs \<Rightarrow> Inr (x # xs)))
      else Inr [])"
  by pat_completeness auto
termination
  by (relation "measure it_remaining")
    (auto simp: Next_def HasNext_def it_remaining_def bindE_def go_index_def
      split: if_splits sum.splits)

text \<open>
  The loop \<open>for it.HasNext() { x := it.Next(); body }\<close> itself, over a state the body
  updates. The body returns the new state and whether it left the loop by \<open>break\<close>.
\<close>

function for_iterator ::
  "('a \<Rightarrow> 's \<Rightarrow> panic + ('s \<times> bool)) \<Rightarrow> 'a SliceIterator \<Rightarrow> 's \<Rightarrow> panic + 's" where
  "for_iterator body it s =
     (if HasNext it
      then (case Next it of
              Inl e \<Rightarrow> Inl e
            | Inr (x, it') \<Rightarrow>
                (case body x s of
                   Inl e \<Rightarrow> Inl e
                 | Inr (s', stop) \<Rightarrow> if stop then Inr s' else for_iterator body it' s'))
      else Inr s)"
  by pat_completeness auto
termination
  by (relation "measure (\<lambda>(body, it, s). it_remaining it)")
    (auto simp: Next_def HasNext_def it_remaining_def bindE_def go_index_def
      split: if_splits sum.splits)

text \<open>The loop \<open>for _, x := range xs { body }\<close> over the elements of a slice.\<close>

fun for_range :: "('a \<Rightarrow> 's \<Rightarrow> panic + 's) \<Rightarrow> 'a list \<Rightarrow> 's \<Rightarrow> panic + 's" where
  "for_range body [] s = Inr s"
| "for_range body (x # xs) s =
     (case body x s of Inl e \<Rightarrow> Inl e | Inr s' \<Rightarrow> for_range body xs s')"

text \<open>\<open>xs[i]\<close> on one of the caller's lists, with Go's bounds check.\<close>

definition list_at :: "'a list \<Rightarrow> int \<Rightarrow> panic + 'a" where
  "list_at xs i = (if 0 \<le> i \<and> i < int (length xs) then Inr (xs ! nat i) else Inl IndexOutOfRange)"

text \<open>
  A Go map that is ranged over keeps its entries as a list without repeated keys; a
  store replaces the value of a key already there. The order in which a \<open>range\<close>
  statement visits the entries is the runtime's choice: \<open>range_order\<close> draws the
  entries one by one, each draw picked by the next number of a seed, so every seed gives
  a permutation of the entries and every permutation has a seed.
\<close>

fun go_map_store :: "'k \<Rightarrow> 'v \<Rightarrow> ('k \<times> 'v) list \<Rightarrow> ('k \<times> 'v) list" where
  "go_map_store k v [] = [(k, v)]"
| "go_map_store k v (e # es) = (if fst e = k then (k, v) # es else e # go_map_store k v es)"

function range_order :: "nat list \<Rightarrow> 'a list \<Rightarrow> 'a list" where
  "range_order seed [] = []"
| "range_order [] (x # xs) = x # xs"
| "range_order (c # seed) (x # xs) =
     (x # xs) ! (c mod length (x # xs))
       # range_order seed (take (c mod length (x # xs)) (x # xs)
                            @ drop (Suc (c mod length (x # xs))) (x # xs))"
  by pat_completeness auto
termination
  by (relation "measure (\<lambda>(seed, xs). length xs)") (auto simp: less_Suc_eq_le)

text \<open>
  What the planner takes from outside the repository: the runtime's choice of capacity
  when \<open>append\<close> outgrows a slice, its choice of visiting order for each round's
  \<open>range\<close> over the marked stops, and how \<open>fmt\<close> prints an identifier under \<open>%v\<close>.
\<close>

record 'id go_runtime =
  growslice :: "nat \<Rightarrow> nat \<Rightarrow> nat"
  map_iteration :: "nat \<Rightarrow> nat list"
  format_id :: "'id \<Rightarrow> string"

section \<open>raptor\_models.go: the data model\<close>

text \<open>
  The three entity interfaces are records of what their getters return. Times are
  \<open>int64\<close> seconds, stop sequences and transfer times Go \<open>int\<close>.
\<close>

record 'id GtfsStop =
  GetUniqueID :: 'id

record 'id GtfsTransfer =
  GetFromUniqueStopID :: 'id
  GetToUniqueStopID :: 'id
  GetMinimumTransferTimeInSeconds :: int

record 'id GtfsStopTime =
  GetUniqueStopID :: 'id
  GetUniqueTripID :: 'id
  GetUniqueTripServiceID :: 'id
  GetStopSequence :: int
  GetArrivalTimeInSeconds :: int
  GetDepartureTimeInSeconds :: int

record 'id ViaTrip =
  UniqueTripID :: 'id
  UniqueTripServiceID :: 'id
  FromStopSequenceInTrip :: int
  ToStopSequenceInTrip :: int

text \<open>The pointer \<open>ViaTrip\<close> of a span is \<open>None\<close> when nil: a walking transfer.\<close>

record 'id RoundSegmentSpan =
  FromUniqueStopID :: 'id
  ToUniqueStopID :: 'id
  ViaTrip :: "'id ViaTrip option"
  ArrivalTimeInSecondsToUniqueStopID :: int
  DepartureTimeInSecondsFromUniqueStopID :: int

record 'id RoundSegment =
  UniqueStopID :: 'id
  ArrivalTimeInSeconds :: int
  Spans :: "'id RoundSegmentSpan list"

record 'id Journey =
  Journey_ToUniqueStopID :: 'id
  Journey_FromUniqueStopID :: 'id
  Journey_DepartureTimeInSeconds :: int
  Journey_ArrivalTimeInSeconds :: int
  Legs :: "'id RoundSegmentSpan list"

type_synonym RaptorMode = string
type_synonym RaptorMarkedStopSource = string

definition RaptorModeDepartAt :: RaptorMode where
  "RaptorModeDepartAt = ''depart_at''"

definition RaptorModeArriveBy :: RaptorMode where
  "RaptorModeArriveBy = ''arrive_by''"

definition RaptorMarkedStopSourceArrival :: RaptorMarkedStopSource where
  "RaptorMarkedStopSourceArrival = ''arrival''"

definition RaptorMarkedStopSourceTransfer :: RaptorMarkedStopSource where
  "RaptorMarkedStopSourceTransfer = ''transfer''"

text \<open>
  The three optional indices are pointers to maps from an identifier to a slice of list
  positions: \<open>None\<close> is the nil pointer. The fields \<open>TimePartitionInterval\<close> and
  \<open>TimePartitions\<close> are read by none of the functions below and are left out.
\<close>

record 'id SimpleRaptorInput =
  FromStops :: "'id GtfsStop list"
  ToStops :: "'id GtfsStop list"
  Transfers :: "'id GtfsTransfer list"
  StopTimes :: "'id GtfsStopTime list"
  Mode :: RaptorMode
  TimeInSeconds :: int
  MaximumTransfers :: int
  AllowTransferHopping :: bool
  TransfersByUniqueStopId :: "('id \<rightharpoonup> int go_slice) option"
  StopTimesByUniqueStopId :: "('id \<rightharpoonup> int go_slice) option"
  StopTimesByUniqueTripServiceId :: "('id \<rightharpoonup> int go_slice) option"

record 'id PreparedRaptorInput =
  Input :: "'id SimpleRaptorInput"
  FromStopsByUniqueStopId :: "'id \<rightharpoonup> 'id"
  ToStopsByUniqueStopId :: "'id \<rightharpoonup> 'id"
  Prepared_TransfersByUniqueStopId :: "'id \<rightharpoonup> int go_slice"
  Prepared_StopTimesByUniqueStopId :: "'id \<rightharpoonup> int go_slice"
  Prepared_StopTimesByUniqueTripServiceId :: "'id \<rightharpoonup> int go_slice"

record 'id RaptorMarkedStop =
  ID :: 'id
  Source :: RaptorMarkedStopSource

text \<open>Reading a map of slices at a missing key gives the nil slice.\<close>

definition slice_of :: "('k \<rightharpoonup> 'a go_slice) \<Rightarrow> 'k \<Rightarrow> 'a go_slice" where
  "slice_of m k = (case m k of None \<Rightarrow> nil_slice | Some s \<Rightarrow> s)"

fun strings_Join :: "string list \<Rightarrow> string \<Rightarrow> string" where
  "strings_Join [] sep = []"
| "strings_Join [part] sep = part"
| "strings_Join (part # parts) sep = part @ sep @ strings_Join parts sep"

text \<open>
  The fingerprint of a span chain; \<open>GetFingerPrint\<close> is it on a segment's spans.
\<close>

definition span_part :: "('id \<Rightarrow> string) \<Rightarrow> 'id RoundSegmentSpan \<Rightarrow> string" where
  "span_part fmt leg =
     (let tripID = (case ViaTrip leg of None \<Rightarrow> [] | Some via \<Rightarrow> fmt (UniqueTripID via))
      in fmt (FromUniqueStopID leg) @ ''|'' @ tripID @ ''|'' @ fmt (ToUniqueStopID leg))"

definition fingerprint :: "('id \<Rightarrow> string) \<Rightarrow> 'id RoundSegmentSpan list \<Rightarrow> string" where
  "fingerprint fmt spans = strings_Join (map (span_part fmt) spans) ''->''"

definition GetFingerPrint :: "('id \<Rightarrow> string) \<Rightarrow> 'id RoundSegment \<Rightarrow> string" where
  "GetFingerPrint fmt j = fingerprint fmt (Spans j)"

section \<open>PrepareRaptorInput\<close>

text \<open>
  One step of \<open>for index, x := range xs\<close> that files \<open>index\<close> under a key: the key
  gets the empty slice when it is new, then \<open>index\<close> is appended to its slice.
\<close>

definition file_index ::
  "(nat \<Rightarrow> nat \<Rightarrow> nat) \<Rightarrow> 'id \<Rightarrow> nat \<Rightarrow> ('id \<rightharpoonup> int go_slice) \<Rightarrow> ('id \<rightharpoonup> int go_slice)" where
  "file_index grow k index m =
     (let m1 = (if m k = None then m(k \<mapsto> nil_slice) else m)
      in m1(k \<mapsto> go_append grow (slice_of m1 k) (int index)))"

fun index_transfers ::
  "(nat \<Rightarrow> nat \<Rightarrow> nat) \<Rightarrow> 'id GtfsTransfer list \<Rightarrow> nat \<Rightarrow> ('id \<rightharpoonup> int go_slice)
     \<Rightarrow> ('id \<rightharpoonup> int go_slice)" where
  "index_transfers grow [] index m = m"
| "index_transfers grow (transfer # rest) index m =
     index_transfers grow rest (Suc index)
       (file_index grow (GetFromUniqueStopID transfer) index m)"

fun index_stop_times ::
  "(nat \<Rightarrow> nat \<Rightarrow> nat) \<Rightarrow> bool \<Rightarrow> bool \<Rightarrow> 'id GtfsStopTime list \<Rightarrow> nat
     \<Rightarrow> ('id \<rightharpoonup> int go_slice) \<times> ('id \<rightharpoonup> int go_slice)
     \<Rightarrow> ('id \<rightharpoonup> int go_slice) \<times> ('id \<rightharpoonup> int go_slice)" where
  "index_stop_times grow has_by_stop has_by_trip [] index maps = maps"
| "index_stop_times grow has_by_stop has_by_trip (stop_time # rest) index (by_stop, by_trip) =
     index_stop_times grow has_by_stop has_by_trip rest (Suc index)
       (if \<not> has_by_stop then file_index grow (GetUniqueStopID stop_time) index by_stop
        else by_stop,
        if \<not> has_by_trip then file_index grow (GetUniqueTripServiceID stop_time) index by_trip
        else by_trip)"

definition stops_by_unique_stop_id :: "'id GtfsStop list \<Rightarrow> ('id \<rightharpoonup> 'id)" where
  "stops_by_unique_stop_id stops =
     fold (\<lambda>stop m. m(GetUniqueID stop \<mapsto> GetUniqueID stop)) stops Map.empty"

definition PrepareRaptorInput ::
  "'id go_runtime \<Rightarrow> 'id SimpleRaptorInput \<Rightarrow> 'id PreparedRaptorInput" where
  "PrepareRaptorInput rt input =
     (let to_stops_by_unique_stop_id = stops_by_unique_stop_id (ToStops input);
          from_stops_by_unique_stop_id = stops_by_unique_stop_id (FromStops input);
          transfers_by_unique_stop_id =
            (case TransfersByUniqueStopId input of
               Some m \<Rightarrow> m
             | None \<Rightarrow> index_transfers (growslice rt) (Transfers input) 0 Map.empty);
          has_prepared_stop_times_by_unique_stop_id = (StopTimesByUniqueStopId input \<noteq> None);
          has_prepared_stop_times_by_unique_trip_service_id =
            (StopTimesByUniqueTripServiceId input \<noteq> None);
          stop_times_by_unique_stop_id =
            (case StopTimesByUniqueStopId input of Some m \<Rightarrow> m | None \<Rightarrow> Map.empty);
          stop_times_by_unique_trip_service_id =
            (case StopTimesByUniqueTripServiceId input of Some m \<Rightarrow> m | None \<Rightarrow> Map.empty);
          built =
            (if \<not> has_prepared_stop_times_by_unique_stop_id
                \<or> \<not> has_prepared_stop_times_by_unique_trip_service_id
             then index_stop_times (growslice rt) has_prepared_stop_times_by_unique_stop_id
                    has_prepared_stop_times_by_unique_trip_service_id (StopTimes input) 0
                    (stop_times_by_unique_stop_id, stop_times_by_unique_trip_service_id)
             else (stop_times_by_unique_stop_id, stop_times_by_unique_trip_service_id))
      in \<lparr>Input = input,
          FromStopsByUniqueStopId = from_stops_by_unique_stop_id,
          ToStopsByUniqueStopId = to_stops_by_unique_stop_id,
          Prepared_TransfersByUniqueStopId = transfers_by_unique_stop_id,
          Prepared_StopTimesByUniqueStopId = fst built,
          Prepared_StopTimesByUniqueTripServiceId = snd built\<rparr>)"

section \<open>The state of a search\<close>

text \<open>
  The maps and the result slice a search owns. \<open>segments\<close> is
  \<open>earliest_arrival_time_segments_by_unique_stop_id\<close> in depart-at mode and
  \<open>latest_arrival_time_segments_by_unique_stop_id\<close> in arrive-by mode.
\<close>

record 'id raptor_state =
  segments :: "'id \<rightharpoonup> 'id RoundSegment"
  stops_marked_for_next_round :: "('id \<times> 'id RaptorMarkedStop) list"
  trips_scanned_from_sequence :: "'id \<rightharpoonup> int"
  potential_journeys_found :: "'id Journey list"
  potential_journey_fingerprints :: "string \<rightharpoonup> bool"

text \<open>
  A segment read at a key the map does not hold is the zero \<open>RoundSegment\<close>: arrival
  time 0 and no spans (its \<open>UniqueStopID\<close> is never read).
\<close>

definition segment_arrival :: "'id RoundSegment option \<Rightarrow> int" where
  "segment_arrival seg = (case seg of None \<Rightarrow> 0 | Some g \<Rightarrow> ArrivalTimeInSeconds g)"

definition segment_spans :: "'id RoundSegment option \<Rightarrow> 'id RoundSegmentSpan list" where
  "segment_spans seg = (case seg of None \<Rightarrow> [] | Some g \<Rightarrow> Spans g)"

definition initial_segments ::
  "'id GtfsStop list \<Rightarrow> int \<Rightarrow> ('id \<rightharpoonup> 'id RoundSegment)" where
  "initial_segments stops time =
     fold (\<lambda>stop m. m(GetUniqueID stop \<mapsto>
             \<lparr>UniqueStopID = GetUniqueID stop, ArrivalTimeInSeconds = time, Spans = []\<rparr>))
       stops Map.empty"

definition initial_marks :: "'id GtfsStop list \<Rightarrow> ('id \<times> 'id RaptorMarkedStop) list" where
  "initial_marks stops =
     fold (\<lambda>stop m. go_map_store (GetUniqueID stop)
             \<lparr>ID = GetUniqueID stop, Source = RaptorMarkedStopSourceArrival\<rparr> m)
       stops []"

text \<open>
  The block both searches end an inner iteration with, once \<open>stop\<close> is known to be a
  terminal stop: the segment stored for \<open>stop\<close> becomes a journey when its fingerprint
  is new, it has a span, and its first and last span are rides. It returns whether the
  inner loop is left by \<open>break\<close>. At a missing key the source reads the zero segment,
  which has no span and so is no journey.
\<close>

definition journey_of :: "'id RoundSegmentSpan list \<Rightarrow> 'id Journey" where
  "journey_of segment_spans' =
     (let first_segment_span = segment_spans' ! 0;
          last_segment_span = segment_spans' ! (length segment_spans' - 1)
      in \<lparr>Journey_ToUniqueStopID = ToUniqueStopID last_segment_span,
          Journey_FromUniqueStopID = FromUniqueStopID first_segment_span,
          Journey_DepartureTimeInSeconds =
            DepartureTimeInSecondsFromUniqueStopID first_segment_span,
          Journey_ArrivalTimeInSeconds = ArrivalTimeInSecondsToUniqueStopID last_segment_span,
          Legs = segment_spans'\<rparr>)"

definition check_journey ::
  "'id go_runtime \<Rightarrow> 'id \<Rightarrow> 'id raptor_state \<Rightarrow> 'id raptor_state \<times> bool" where
  "check_journey rt stop s =
     (case segments s stop of
        None \<Rightarrow> (s, False)
      | Some segment \<Rightarrow>
          (let segment_fingerprint = GetFingerPrint (format_id rt) segment
           in if potential_journey_fingerprints s segment_fingerprint = None
                 \<and> length (Spans segment) > 0
                 \<and> ViaTrip (Spans segment ! 0) \<noteq> None
                 \<and> ViaTrip (Spans segment ! (length (Spans segment) - 1)) \<noteq> None
              then (s\<lparr>potential_journeys_found :=
                         potential_journeys_found s @ [journey_of (Spans segment)],
                       potential_journey_fingerprints :=
                         (potential_journey_fingerprints s)(segment_fingerprint \<mapsto> True)\<rparr>,
                    True)
              else (s, False)))"

text \<open>
  The end of an inner iteration in both searches: the stop just reached is marked for
  the next round as reached by a ride, whatever mark it had, and checked for a journey
  when it is a terminal stop (\<open>terminal\<close> is the to-stop map in depart-at mode, the
  from-stop map in arrive-by mode).
\<close>

definition mark_arrival_and_check ::
  "'id go_runtime \<Rightarrow> ('id \<rightharpoonup> 'id) \<Rightarrow> 'id \<Rightarrow> 'id raptor_state \<Rightarrow> 'id raptor_state \<times> bool" where
  "mark_arrival_and_check rt terminal stop s =
     (let s3 = s\<lparr>stops_marked_for_next_round :=
                  go_map_store stop \<lparr>ID = stop, Source = RaptorMarkedStopSourceArrival\<rparr>
                    (stops_marked_for_next_round s)\<rparr>
      in if terminal stop \<noteq> None then check_journey rt stop s3 else (s3, False))"

text \<open>
  A transfer target is marked for the next round as reached by a transfer, unless it is
  marked already.
\<close>

definition mark_transfer :: "'id \<Rightarrow> 'id raptor_state \<Rightarrow> 'id raptor_state" where
  "mark_transfer stop s =
     (if map_of (stops_marked_for_next_round s) stop = None
      then s\<lparr>stops_marked_for_next_round :=
               go_map_store stop \<lparr>ID = stop, Source = RaptorMarkedStopSourceTransfer\<rparr>
                 (stops_marked_for_next_round s)\<rparr>
      else s)"

section \<open>SimpleRaptorDepartAt\<close>

text \<open>The body of the loop over the transfers of the stop just reached.\<close>

definition DepartAt_transfer ::
  "'id PreparedRaptorInput \<Rightarrow> 'id GtfsStopTime \<Rightarrow> 'id RoundSegment \<Rightarrow> int
     \<Rightarrow> 'id raptor_state \<Rightarrow> panic + 'id raptor_state" where
  "DepartAt_transfer prepared_input following_stop_time existing_segment transfer_stop_index s =
     bindE (list_at (Transfers (Input prepared_input)) transfer_stop_index) (\<lambda>transfer_stop.
       let s1 = mark_transfer (GetToUniqueStopID transfer_stop) s;
           arrival_time_at_transfer_stop =
             add64 (GetArrivalTimeInSeconds following_stop_time)
               (GetMinimumTransferTimeInSeconds transfer_stop);
           existing_transfer_segment = segments s1 (GetToUniqueStopID transfer_stop)
       in Inr (if existing_transfer_segment = None
                  \<or> segment_arrival existing_transfer_segment > arrival_time_at_transfer_stop
               then s1\<lparr>segments := (segments s1)(GetToUniqueStopID transfer_stop \<mapsto>
                         \<lparr>UniqueStopID = GetToUniqueStopID transfer_stop,
                          ArrivalTimeInSeconds = arrival_time_at_transfer_stop,
                          Spans = Spans existing_segment @
                            [\<lparr>FromUniqueStopID = GetUniqueStopID following_stop_time,
                              ToUniqueStopID = GetToUniqueStopID transfer_stop,
                              ViaTrip = None,
                              ArrivalTimeInSecondsToUniqueStopID = arrival_time_at_transfer_stop,
                              DepartureTimeInSecondsFromUniqueStopID =
                                GetArrivalTimeInSeconds following_stop_time\<rparr>]\<rparr>)\<rparr>
               else s1))"

text \<open>
  The ride from the boarding stop time to a following stop time, as a span, and the
  segment it gives the following stop.
\<close>

definition DepartAt_ride_segment ::
  "'id RoundSegment option \<Rightarrow> 'id GtfsStopTime \<Rightarrow> 'id GtfsStopTime \<Rightarrow> 'id RoundSegment" where
  "DepartAt_ride_segment current_segment_for_stop stop_time_for_marked_stop following_stop_time =
     \<lparr>UniqueStopID = GetUniqueStopID following_stop_time,
      ArrivalTimeInSeconds = GetArrivalTimeInSeconds following_stop_time,
      Spans = segment_spans current_segment_for_stop @
        [\<lparr>FromUniqueStopID = GetUniqueStopID stop_time_for_marked_stop,
          ToUniqueStopID = GetUniqueStopID following_stop_time,
          ViaTrip = Some
            \<lparr>UniqueTripID = GetUniqueTripID following_stop_time,
             UniqueTripServiceID = GetUniqueTripServiceID following_stop_time,
             FromStopSequenceInTrip = GetStopSequence stop_time_for_marked_stop,
             ToStopSequenceInTrip = GetStopSequence following_stop_time\<rparr>,
          ArrivalTimeInSecondsToUniqueStopID = GetArrivalTimeInSeconds following_stop_time,
          DepartureTimeInSecondsFromUniqueStopID =
            GetDepartureTimeInSeconds stop_time_for_marked_stop\<rparr>]\<rparr>"

text \<open>
  The first part of the body of \<open>following_stop_times_loop\<close>: when the ride improves
  on the arrival stored for the following stop, its segment is stored, and the stop's
  transfers are relaxed if hopping is allowed or the marked stop was reached by a ride.
\<close>

definition DepartAt_improve ::
  "'id SimpleRaptorInput \<Rightarrow> 'id PreparedRaptorInput \<Rightarrow> 'id RaptorMarkedStop
     \<Rightarrow> 'id RoundSegment option \<Rightarrow> 'id GtfsStopTime \<Rightarrow> 'id GtfsStopTime \<Rightarrow> 'id raptor_state
     \<Rightarrow> panic + 'id raptor_state" where
  "DepartAt_improve input prepared_input marked_stop current_segment_for_stop
       stop_time_for_marked_stop following_stop_time s =
     (let existing = segments s (GetUniqueStopID following_stop_time);
          is_improvement_to_existing_arrival_time =
            (existing = None
             \<or> segment_arrival existing > GetArrivalTimeInSeconds following_stop_time)
      in if is_improvement_to_existing_arrival_time
         then
           (let existing_segment =
                  DepartAt_ride_segment current_segment_for_stop stop_time_for_marked_stop
                    following_stop_time;
                s1 = s\<lparr>segments := (segments s)(GetUniqueStopID following_stop_time \<mapsto>
                                      existing_segment)\<rparr>
            in if AllowTransferHopping input
                  \<or> Source marked_stop = RaptorMarkedStopSourceArrival
               then for_range
                      (DepartAt_transfer prepared_input following_stop_time existing_segment)
                      (elems (slice_of (Prepared_TransfersByUniqueStopId prepared_input)
                                (GetUniqueStopID following_stop_time)))
                      s1
               else Inr s1)
         else Inr s)"

text \<open>The body of \<open>following_stop_times_loop\<close>.\<close>

definition DepartAt_following ::
  "'id go_runtime \<Rightarrow> 'id SimpleRaptorInput \<Rightarrow> 'id PreparedRaptorInput \<Rightarrow> 'id RaptorMarkedStop
     \<Rightarrow> 'id RoundSegment option \<Rightarrow> 'id GtfsStopTime \<Rightarrow> int \<Rightarrow> 'id raptor_state
     \<Rightarrow> panic + ('id raptor_state \<times> bool)" where
  "DepartAt_following rt input prepared_input marked_stop current_segment_for_stop
       stop_time_for_marked_stop following_index s =
     bindE (list_at (StopTimes (Input prepared_input)) following_index) (\<lambda>following_stop_time.
     bindE (DepartAt_improve input prepared_input marked_stop current_segment_for_stop
              stop_time_for_marked_stop following_stop_time s) (\<lambda>s2.
       Inr (mark_arrival_and_check rt (ToStopsByUniqueStopId prepared_input)
              (GetUniqueStopID following_stop_time) s2)))"

text \<open>
  The iterator over the stop times that follow the boarding stop time on its trip:
  the sub-iterator of the trip's positions from \<open>stop_times_start_offset\<close>, of
  \<open>Length()\<close> items when the trip was not scanned before and of
  \<open>stop_times_end_offset\<close> items when it was.
\<close>

definition DepartAt_following_stop_times ::
  "'id PreparedRaptorInput \<Rightarrow> 'id GtfsStopTime \<Rightarrow> int option \<Rightarrow> panic + int SliceIterator" where
  "DepartAt_following_stop_times prepared_input stop_time_for_marked_stop scanned =
     (let trip_already_scanned_from_sequence = (case scanned of None \<Rightarrow> 0 | Some q \<Rightarrow> q);
          has_already_scanned_trip_from_sequence = (scanned \<noteq> None);
          stop_times_for_unique_trip_id_it =
            NewSliceIterator
              (slice_of (Prepared_StopTimesByUniqueTripServiceId prepared_input)
                 (GetUniqueTripServiceID stop_time_for_marked_stop))
              False
      in bindE (First stop_times_for_unique_trip_id_it) (\<lambda>first_index.
         bindE (list_at (StopTimes (Input prepared_input)) first_index) (\<lambda>first_stop_time.
           let trip_stop_times_sequence_offset = GetStopSequence first_stop_time;
               stop_times_start_offset =
                 add64 (sub64 (GetStopSequence stop_time_for_marked_stop)
                          trip_stop_times_sequence_offset) 1;
               stop_times_end_offset =
                 sub64 trip_already_scanned_from_sequence trip_stop_times_sequence_offset
           in if \<not> has_already_scanned_trip_from_sequence
              then SliceIterator stop_times_for_unique_trip_id_it
                     stop_times_start_offset (Length stop_times_for_unique_trip_id_it)
              else SliceIterator stop_times_for_unique_trip_id_it
                     stop_times_start_offset stop_times_end_offset)))"

text \<open>
  The body of the loop over the stop times of a marked stop. It never leaves that loop
  by \<open>break\<close>; \<open>continue\<close> returns the state as it is.
\<close>

definition DepartAt_board ::
  "'id go_runtime \<Rightarrow> 'id SimpleRaptorInput \<Rightarrow> 'id PreparedRaptorInput \<Rightarrow> 'id RaptorMarkedStop
     \<Rightarrow> 'id RoundSegment option \<Rightarrow> int \<Rightarrow> 'id raptor_state
     \<Rightarrow> panic + ('id raptor_state \<times> bool)" where
  "DepartAt_board rt input prepared_input marked_stop current_segment_for_stop index s =
     bindE (list_at (StopTimes (Input prepared_input)) index) (\<lambda>stop_time_for_marked_stop.
       let scanned = trips_scanned_from_sequence s (GetUniqueTripID stop_time_for_marked_stop);
           trip_already_scanned_from_sequence = (case scanned of None \<Rightarrow> 0 | Some q \<Rightarrow> q);
           has_already_scanned_trip_from_sequence = (scanned \<noteq> None)
       in if GetDepartureTimeInSeconds stop_time_for_marked_stop
               < segment_arrival current_segment_for_stop
             \<or> has_already_scanned_trip_from_sequence
               \<and> GetStopSequence stop_time_for_marked_stop \<ge> trip_already_scanned_from_sequence
          then Inr (s, False)
          else
            (let s1 = s\<lparr>trips_scanned_from_sequence :=
                          (trips_scanned_from_sequence s)
                            (GetUniqueTripID stop_time_for_marked_stop \<mapsto>
                               GetStopSequence stop_time_for_marked_stop)\<rparr>
             in bindE (DepartAt_following_stop_times prepared_input stop_time_for_marked_stop
                         scanned)
                  (\<lambda>stop_times_for_unique_trip_id_after_current_stop_it.
                     bindE (for_iterator
                              (DepartAt_following rt input prepared_input marked_stop
                                 current_segment_for_stop stop_time_for_marked_stop)
                              stop_times_for_unique_trip_id_after_current_stop_it s1)
                       (\<lambda>s2. Inr (s2, False)))))"

text \<open>The body of the loop over the stops marked for the round.\<close>

definition DepartAt_marked_stop ::
  "'id go_runtime \<Rightarrow> 'id SimpleRaptorInput \<Rightarrow> 'id PreparedRaptorInput \<Rightarrow> 'id RaptorMarkedStop
     \<Rightarrow> 'id raptor_state \<Rightarrow> panic + 'id raptor_state" where
  "DepartAt_marked_stop rt input prepared_input marked_stop s =
     (let current_segment_for_stop = segments s (ID marked_stop);
          stop_times_for_marked_stop =
            slice_of (Prepared_StopTimesByUniqueStopId prepared_input) (ID marked_stop);
          stop_times_for_marked_stop_it = NewSliceIterator stop_times_for_marked_stop False
      in for_iterator
           (DepartAt_board rt input prepared_input marked_stop current_segment_for_stop)
           stop_times_for_marked_stop_it s)"

text \<open>
  The rounds: \<open>rounds_left\<close> more rounds from round number \<open>round\<close>, over the stops
  marked for the round. Each round starts with an empty next marking.
\<close>

fun DepartAt_rounds ::
  "'id go_runtime \<Rightarrow> 'id SimpleRaptorInput \<Rightarrow> 'id PreparedRaptorInput \<Rightarrow> nat \<Rightarrow> nat
     \<Rightarrow> ('id \<times> 'id RaptorMarkedStop) list \<Rightarrow> 'id raptor_state \<Rightarrow> panic + 'id raptor_state" where
  "DepartAt_rounds rt input prepared_input 0 round stops_marked_for_round s = Inr s"
| "DepartAt_rounds rt input prepared_input (Suc rounds_left) round stops_marked_for_round s =
     (case for_range (DepartAt_marked_stop rt input prepared_input)
             (map snd (range_order (map_iteration rt round) stops_marked_for_round))
             (s\<lparr>stops_marked_for_next_round := []\<rparr>) of
        Inl e \<Rightarrow> Inl e
      | Inr s' \<Rightarrow>
          DepartAt_rounds rt input prepared_input rounds_left (Suc round)
            (stops_marked_for_next_round s') s')"

definition initial_state :: "'id GtfsStop list \<Rightarrow> int \<Rightarrow> 'id raptor_state" where
  "initial_state stops time =
     \<lparr>segments = initial_segments stops time,
      stops_marked_for_next_round = [],
      trips_scanned_from_sequence = Map.empty,
      potential_journeys_found = [],
      potential_journey_fingerprints = Map.empty\<rparr>"

definition SimpleRaptorDepartAt ::
  "'id go_runtime \<Rightarrow> 'id SimpleRaptorInput \<Rightarrow> panic + 'id Journey list" where
  "SimpleRaptorDepartAt rt input =
     (let prepared_input = PrepareRaptorInput rt input
      in bindE (DepartAt_rounds rt input prepared_input (nat (MaximumTransfers input)) 0
                  (initial_marks (FromStops input))
                  (initial_state (FromStops input) (TimeInSeconds input)))
           (\<lambda>s. Inr (potential_journeys_found s)))"

section \<open>SimpleRaptorArriveBy\<close>

text \<open>The body of the loop over the transfers of the stop just reached backwards.\<close>

definition ArriveBy_transfer ::
  "'id PreparedRaptorInput \<Rightarrow> 'id GtfsStopTime \<Rightarrow> 'id RoundSegment \<Rightarrow> int
     \<Rightarrow> 'id raptor_state \<Rightarrow> panic + 'id raptor_state" where
  "ArriveBy_transfer prepared_input preceeding_stop_time existing_segment transfer_stop_index s =
     bindE (list_at (Transfers (Input prepared_input)) transfer_stop_index) (\<lambda>transfer_stop.
       let s1 = mark_transfer (GetToUniqueStopID transfer_stop) s;
           departure_time_from_transfer_stop =
             sub64 (GetArrivalTimeInSeconds preceeding_stop_time)
               (GetMinimumTransferTimeInSeconds transfer_stop);
           existing_transfer_segment = segments s1 (GetToUniqueStopID transfer_stop)
       in Inr (if existing_transfer_segment = None
                  \<or> departure_time_from_transfer_stop > segment_arrival existing_transfer_segment
               then s1\<lparr>segments := (segments s1)(GetToUniqueStopID transfer_stop \<mapsto>
                         \<lparr>UniqueStopID = GetToUniqueStopID transfer_stop,
                          ArrivalTimeInSeconds = departure_time_from_transfer_stop,
                          Spans =
                            \<lparr>FromUniqueStopID = GetToUniqueStopID transfer_stop,
                             ToUniqueStopID = GetUniqueStopID preceeding_stop_time,
                             ViaTrip = None,
                             ArrivalTimeInSecondsToUniqueStopID =
                               GetArrivalTimeInSeconds preceeding_stop_time,
                             DepartureTimeInSecondsFromUniqueStopID =
                               departure_time_from_transfer_stop\<rparr>
                            # Spans existing_segment\<rparr>)\<rparr>
               else s1))"

definition ArriveBy_ride_segment ::
  "'id RoundSegment option \<Rightarrow> 'id GtfsStopTime \<Rightarrow> 'id GtfsStopTime \<Rightarrow> 'id RoundSegment" where
  "ArriveBy_ride_segment current_segment_for_stop stop_time_for_marked_stop preceeding_stop_time =
     \<lparr>UniqueStopID = GetUniqueStopID preceeding_stop_time,
      ArrivalTimeInSeconds = GetArrivalTimeInSeconds preceeding_stop_time,
      Spans =
        \<lparr>FromUniqueStopID = GetUniqueStopID preceeding_stop_time,
         ToUniqueStopID = GetUniqueStopID stop_time_for_marked_stop,
         ViaTrip = Some
           \<lparr>UniqueTripID = GetUniqueTripID preceeding_stop_time,
            UniqueTripServiceID = GetUniqueTripServiceID preceeding_stop_time,
            FromStopSequenceInTrip = GetStopSequence preceeding_stop_time,
            ToStopSequenceInTrip = GetStopSequence stop_time_for_marked_stop\<rparr>,
         ArrivalTimeInSecondsToUniqueStopID = GetArrivalTimeInSeconds stop_time_for_marked_stop,
         DepartureTimeInSecondsFromUniqueStopID =
           GetDepartureTimeInSeconds preceeding_stop_time\<rparr>
        # segment_spans current_segment_for_stop\<rparr>"

definition ArriveBy_improve ::
  "'id SimpleRaptorInput \<Rightarrow> 'id PreparedRaptorInput \<Rightarrow> 'id RaptorMarkedStop
     \<Rightarrow> 'id RoundSegment option \<Rightarrow> 'id GtfsStopTime \<Rightarrow> 'id GtfsStopTime \<Rightarrow> 'id raptor_state
     \<Rightarrow> panic + 'id raptor_state" where
  "ArriveBy_improve input prepared_input marked_stop current_segment_for_stop
       stop_time_for_marked_stop preceeding_stop_time s =
     (let existing = segments s (GetUniqueStopID preceeding_stop_time);
          is_improvement_to_existing_arrival_time =
            (existing = None
             \<or> GetArrivalTimeInSeconds preceeding_stop_time > segment_arrival existing)
      in if is_improvement_to_existing_arrival_time
         then
           (let existing_segment =
                  ArriveBy_ride_segment current_segment_for_stop stop_time_for_marked_stop
                    preceeding_stop_time;
                s1 = s\<lparr>segments := (segments s)(GetUniqueStopID preceeding_stop_time \<mapsto>
                                      existing_segment)\<rparr>
            in if AllowTransferHopping input
                  \<or> Source marked_stop = RaptorMarkedStopSourceArrival
               then for_range
                      (ArriveBy_transfer prepared_input preceeding_stop_time existing_segment)
                      (elems (slice_of (Prepared_TransfersByUniqueStopId prepared_input)
                                (GetUniqueStopID preceeding_stop_time)))
                      s1
               else Inr s1)
         else Inr s)"

text \<open>The body of \<open>preceeding_stop_times_loop\<close>.\<close>

definition ArriveBy_preceeding ::
  "'id go_runtime \<Rightarrow> 'id SimpleRaptorInput \<Rightarrow> 'id PreparedRaptorInput \<Rightarrow> 'id RaptorMarkedStop
     \<Rightarrow> 'id RoundSegment option \<Rightarrow> 'id GtfsStopTime \<Rightarrow> int \<Rightarrow> 'id raptor_state
     \<Rightarrow> panic + ('id raptor_state \<times> bool)" where
  "ArriveBy_preceeding rt input prepared_input marked_stop current_segment_for_stop
       stop_time_for_marked_stop preceeding_index s =
     bindE (list_at (StopTimes (Input prepared_input)) preceeding_index) (\<lambda>preceeding_stop_time.
     bindE (ArriveBy_improve input prepared_input marked_stop current_segment_for_stop
              stop_time_for_marked_stop preceeding_stop_time s) (\<lambda>s2.
       Inr (mark_arrival_and_check rt (FromStopsByUniqueStopId prepared_input)
              (GetUniqueStopID preceeding_stop_time) s2)))"

text \<open>
  The iterator, in reverse, over the stop times that precede the alighting stop time on
  its trip; \<open>First()\<close> of the reversed trip iterator is the trip's last position.
\<close>

definition ArriveBy_preceeding_stop_times ::
  "'id PreparedRaptorInput \<Rightarrow> 'id GtfsStopTime \<Rightarrow> int option \<Rightarrow> panic + int SliceIterator" where
  "ArriveBy_preceeding_stop_times prepared_input stop_time_for_marked_stop scanned =
     (let trip_already_scanned_from_sequence = (case scanned of None \<Rightarrow> 0 | Some q \<Rightarrow> q);
          has_already_scanned_trip_from_sequence = (scanned \<noteq> None);
          stop_times_for_unique_trip_id_it =
            NewSliceIterator
              (slice_of (Prepared_StopTimesByUniqueTripServiceId prepared_input)
                 (GetUniqueTripServiceID stop_time_for_marked_stop))
              True
      in bindE (First stop_times_for_unique_trip_id_it) (\<lambda>first_index.
         bindE (list_at (StopTimes (Input prepared_input)) first_index) (\<lambda>first_stop_time.
           let stop_times_last_sequence = GetStopSequence first_stop_time;
               stop_times_start_offset =
                 add64 (sub64 stop_times_last_sequence
                          (GetStopSequence stop_time_for_marked_stop)) 1;
               stop_times_end_offset =
                 sub64 stop_times_last_sequence trip_already_scanned_from_sequence
           in if \<not> has_already_scanned_trip_from_sequence
              then SliceIterator stop_times_for_unique_trip_id_it
                     stop_times_start_offset (Length stop_times_for_unique_trip_id_it)
              else SliceIterator stop_times_for_unique_trip_id_it
                     stop_times_start_offset stop_times_end_offset)))"

text \<open>The body of the loop, in reverse, over the stop times of a marked stop.\<close>

definition ArriveBy_alight ::
  "'id go_runtime \<Rightarrow> 'id SimpleRaptorInput \<Rightarrow> 'id PreparedRaptorInput \<Rightarrow> 'id RaptorMarkedStop
     \<Rightarrow> 'id RoundSegment option \<Rightarrow> int \<Rightarrow> 'id raptor_state
     \<Rightarrow> panic + ('id raptor_state \<times> bool)" where
  "ArriveBy_alight rt input prepared_input marked_stop current_segment_for_stop index s =
     bindE (list_at (StopTimes (Input prepared_input)) index) (\<lambda>stop_time_for_marked_stop.
       let scanned = trips_scanned_from_sequence s (GetUniqueTripID stop_time_for_marked_stop);
           trip_already_scanned_from_sequence = (case scanned of None \<Rightarrow> 0 | Some q \<Rightarrow> q);
           has_already_scanned_trip_from_sequence = (scanned \<noteq> None)
       in if GetArrivalTimeInSeconds stop_time_for_marked_stop
               > segment_arrival current_segment_for_stop
             \<or> has_already_scanned_trip_from_sequence
               \<and> GetStopSequence stop_time_for_marked_stop \<le> trip_already_scanned_from_sequence
          then Inr (s, False)
          else
            (let s1 = s\<lparr>trips_scanned_from_sequence :=
                          (trips_scanned_from_sequence s)
                            (GetUniqueTripID stop_time_for_marked_stop \<mapsto>
                               GetStopSequence stop_time_for_marked_stop)\<rparr>
             in bindE (ArriveBy_preceeding_stop_times prepared_input stop_time_for_marked_stop
                         scanned)
                  (\<lambda>stop_times_for_unique_trip_id_after_current_stop_it.
                     bindE (for_iterator
                              (ArriveBy_preceeding rt input prepared_input marked_stop
                                 current_segment_for_stop stop_time_for_marked_stop)
                              stop_times_for_unique_trip_id_after_current_stop_it s1)
                       (\<lambda>s2. Inr (s2, False)))))"

definition ArriveBy_marked_stop ::
  "'id go_runtime \<Rightarrow> 'id SimpleRaptorInput \<Rightarrow> 'id PreparedRaptorInput \<Rightarrow> 'id RaptorMarkedStop
     \<Rightarrow> 'id raptor_state \<Rightarrow> panic + 'id raptor_state" where
  "ArriveBy_marked_stop rt input prepared_input marked_stop s =
     (let current_segment_for_stop = segments s (ID marked_stop);
          stop_times_for_marked_stop =
            slice_of (Prepared_StopTimesByUniqueStopId prepared_input) (ID marked_stop);
          stop_times_for_marked_stop_it = NewSliceIterator stop_times_for_marked_stop True
      in for_iterator
           (ArriveBy_alight rt input prepared_input marked_stop current_segment_for_stop)
           stop_times_for_marked_stop_it s)"

fun ArriveBy_rounds ::
  "'id go_runtime \<Rightarrow> 'id SimpleRaptorInput \<Rightarrow> 'id PreparedRaptorInput \<Rightarrow> nat \<Rightarrow> nat
     \<Rightarrow> ('id \<times> 'id RaptorMarkedStop) list \<Rightarrow> 'id raptor_state \<Rightarrow> panic + 'id raptor_state" where
  "ArriveBy_rounds rt input prepared_input 0 round stops_marked_for_round s = Inr s"
| "ArriveBy_rounds rt input prepared_input (Suc rounds_left) round stops_marked_for_round s =
     (case for_range (ArriveBy_marked_stop rt input prepared_input)
             (map snd (range_order (map_iteration rt round) stops_marked_for_round))
             (s\<lparr>stops_marked_for_next_round := []\<rparr>) of
        Inl e \<Rightarrow> Inl e
      | Inr s' \<Rightarrow>
          ArriveBy_rounds rt input prepared_input rounds_left (Suc round)
            (stops_marked_for_next_round s') s')"

definition SimpleRaptorArriveBy ::
  "'id go_runtime \<Rightarrow> 'id SimpleRaptorInput \<Rightarrow> panic + 'id Journey list" where
  "SimpleRaptorArriveBy rt input =
     (let prepared_input = PrepareRaptorInput rt input
      in bindE (ArriveBy_rounds rt input prepared_input (nat (MaximumTransfers input)) 0
                  (initial_marks (ToStops input))
                  (initial_state (ToStops input) (TimeInSeconds input)))
           (\<lambda>s. Inr (potential_journeys_found s)))"

section \<open>SimpleRaptor\<close>

definition SimpleRaptor ::
  "'id go_runtime \<Rightarrow> 'id SimpleRaptorInput \<Rightarrow> panic + 'id Journey list" where
  "SimpleRaptor rt input =
     (if Mode input = RaptorModeDepartAt then SimpleRaptorDepartAt rt input
      else SimpleRaptorArriveBy rt input)"

declare for_iterator.simps [simp del] drain.simps [simp del]

section \<open>Scenarios\<close>

text \<open>
  The runtime of the scenarios: the gc runtime's capacities, each round's marked stops
  visited in the order they were first marked, and string identifiers, which \<open>%v\<close>
  prints as they are.
\<close>

definition gc_runtime :: "string go_runtime" where
  "gc_runtime =
     \<lparr>growslice = gc_growslice, map_iteration = (\<lambda>round. []), format_id = (\<lambda>x. x)\<rparr>"

text \<open>
  A runtime that differs from it only in giving every grown slice spare capacity.
\<close>

definition roomy_runtime :: "string go_runtime" where
  "roomy_runtime = gc_runtime\<lparr>growslice := (\<lambda>old_cap new_len. 2 * new_len + 2)\<rparr>"

definition stop_time :: "string \<Rightarrow> string \<Rightarrow> int \<Rightarrow> int \<Rightarrow> int \<Rightarrow> string GtfsStopTime" where
  "stop_time stop trip stop_sequence arrival departure =
     \<lparr>GetUniqueStopID = stop, GetUniqueTripID = trip, GetUniqueTripServiceID = trip,
      GetStopSequence = stop_sequence, GetArrivalTimeInSeconds = arrival,
      GetDepartureTimeInSeconds = departure\<rparr>"

text \<open>An input without transfers, without hopping and with all three indices nil.\<close>

definition plain_input ::
  "string list \<Rightarrow> string list \<Rightarrow> string GtfsStopTime list \<Rightarrow> RaptorMode \<Rightarrow> int \<Rightarrow> int
     \<Rightarrow> string SimpleRaptorInput" where
  "plain_input from_ids to_ids stop_times mode time maximum_transfers =
     \<lparr>FromStops = map (\<lambda>i. \<lparr>GetUniqueID = i\<rparr>) from_ids,
      ToStops = map (\<lambda>i. \<lparr>GetUniqueID = i\<rparr>) to_ids,
      Transfers = [], StopTimes = stop_times, Mode = mode,
      TimeInSeconds = time, MaximumTransfers = maximum_transfers,
      AllowTransferHopping = False,
      TransfersByUniqueStopId = None, StopTimesByUniqueStopId = None,
      StopTimesByUniqueTripServiceId = None\<rparr>"

text \<open>The span of a ride on a trip whose service id is its trip id.\<close>

definition ride ::
  "string \<Rightarrow> string \<Rightarrow> string \<Rightarrow> int \<Rightarrow> int \<Rightarrow> int \<Rightarrow> int \<Rightarrow> string RoundSegmentSpan" where
  "ride from_stop to_stop trip from_sequence to_sequence departure arrival =
     \<lparr>FromUniqueStopID = from_stop, ToUniqueStopID = to_stop,
      ViaTrip = Some \<lparr>UniqueTripID = trip, UniqueTripServiceID = trip,
                      FromStopSequenceInTrip = from_sequence,
                      ToStopSequenceInTrip = to_sequence\<rparr>,
      ArrivalTimeInSecondsToUniqueStopID = arrival,
      DepartureTimeInSecondsFromUniqueStopID = departure\<rparr>"

text \<open>
  Scenarios S1 and S2: the reference time \<open>T\<close> and the single trip from High
  (sequence 5, departure \<open>T + 10\<close>) to Franklin (sequence 6, arrival \<open>T + 120\<close>), in
  ascending stop-sequence order. The arrival at High and the departure from Franklin are
  those of \<open>TestSimpleForwardRaptor\<close>.
\<close>

definition T_ref :: int where
  "T_ref = 1755964800"

definition single_trip :: "string GtfsStopTime list" where
  "single_trip =
     [stop_time ''High'' ''A_20250823'' 5 (T_ref - 10) (T_ref + 10),
      stop_time ''Franklin'' ''A_20250823'' 6 (T_ref + 120) (T_ref + 130)]"

definition S1_input :: "string SimpleRaptorInput" where
  "S1_input = plain_input [''High''] [''Franklin''] single_trip RaptorModeDepartAt T_ref 4"

definition S2_input :: "string SimpleRaptorInput" where
  "S2_input =
     plain_input [''High''] [''Franklin''] single_trip RaptorModeArriveBy (T_ref + 120) 4"

text \<open>
  Two trips of three stops out of \<open>A\<close>, with destinations \<open>B\<close> and \<open>D\<close>: a
  timetable on which the depart-at search returns two journeys under the gc runtime.
\<close>

definition two_trips :: "string GtfsStopTime list" where
  "two_trips =
     [stop_time ''A'' ''X'' 1 100 100, stop_time ''B'' ''X'' 2 200 200,
      stop_time ''C'' ''X'' 3 300 300,
      stop_time ''A'' ''Y'' 1 110 110, stop_time ''D'' ''Y'' 2 210 210,
      stop_time ''E'' ''Y'' 3 310 310]"

definition two_trips_input :: "string SimpleRaptorInput" where
  "two_trips_input = plain_input [''A''] [''B'', ''D''] two_trips RaptorModeDepartAt 50 2"

text \<open>
  A local trip \<open>A, M1, M2, M3, X\<close> and three faster trips \<open>M1\<close> to \<open>M2\<close>, \<open>M2\<close> to
  \<open>M3\<close> and \<open>M3\<close> to \<open>D\<close>, every time non-decreasing along its trip; two rounds.
\<close>

definition chained_trips :: "string GtfsStopTime list" where
  "chained_trips =
     [stop_time ''A'' ''local'' 1 5 10, stop_time ''M1'' ''local'' 2 20 20,
      stop_time ''M2'' ''local'' 3 100 100, stop_time ''M3'' ''local'' 4 200 200,
      stop_time ''X'' ''local'' 5 300 300,
      stop_time ''M1'' ''express1'' 1 30 30, stop_time ''M2'' ''express1'' 2 40 40,
      stop_time ''E1'' ''express1'' 3 45 45,
      stop_time ''M2'' ''express2'' 1 50 50, stop_time ''M3'' ''express2'' 2 60 60,
      stop_time ''E2'' ''express2'' 3 65 65,
      stop_time ''M3'' ''shuttle'' 1 70 70, stop_time ''D'' ''shuttle'' 2 80 80,
      stop_time ''F'' ''shuttle'' 3 90 90]"

definition chained_trips_input :: "string SimpleRaptorInput" where
  "chained_trips_input = plain_input [''A''] [''D''] chained_trips RaptorModeDepartAt 0 2"


text \<open>
  An early trip \<open>D, G, H\<close>, listed first, and a later trip \<open>A, B, C\<close>: each trip
  in ascending sequence with non-decreasing times and arrival equal to departure.
\<close>

definition early_and_late_trip :: "string GtfsStopTime list" where
  "early_and_late_trip =
     [stop_time ''D'' ''early'' 1 0 0, stop_time ''G'' ''early'' 2 10 10,
      stop_time ''H'' ''early'' 3 20 20,
      stop_time ''A'' ''late'' 1 100 100, stop_time ''B'' ''late'' 2 200 200,
      stop_time ''C'' ''late'' 3 300 300]"

definition early_and_late_input :: "string SimpleRaptorInput" where
  "early_and_late_input =
     plain_input [''A''] [''D''] early_and_late_trip RaptorModeDepartAt 50 1"

text \<open>
  The single trip under a mode that is neither \<open>depart_at\<close> nor \<open>arrive_by\<close>: once
  with a reference time before every arrival, once with the trip's stop times in
  descending order.
\<close>

definition unknown_mode_input :: "string SimpleRaptorInput" where
  "unknown_mode_input =
     plain_input [''High''] [''Franklin''] single_trip ''express'' (T_ref - 100) 4"

definition unknown_mode_reversed_input :: "string SimpleRaptorInput" where
  "unknown_mode_reversed_input =
     plain_input [''High''] [''Franklin''] (rev single_trip) ''express'' (T_ref + 120) 4"

text \<open>
  The trip \<open>A, B, C\<close> with origin \<open>Z\<close> and a supplied stop index that files the stop
  time at \<open>A\<close> (position 0) under \<open>Z\<close>.
\<close>

definition misfiled_index_input :: "string SimpleRaptorInput" where
  "misfiled_index_input =
     (plain_input [''Z''] [''B''] (take 3 two_trips) RaptorModeDepartAt 50 1)
       \<lparr>StopTimesByUniqueStopId := Some [''Z'' \<mapsto> \<lparr>elems = [0], spare = []\<rparr>]\<rparr>"

section \<open>Notions the properties are stated with\<close>



text \<open>
  A stop index is sound for a list of stop times when every position it files under a
  stop id, if it is a position of the list, holds a stop time at that stop. The
  supplied stop index of an input is sound when it is nil or sound for the input's stop
  times.
\<close>

definition stop_index_sound :: "'id GtfsStopTime list \<Rightarrow> ('id \<rightharpoonup> int go_slice) \<Rightarrow> bool" where
  "stop_index_sound stop_times m \<longleftrightarrow>
     (\<forall>k s i. m k = Some s \<longrightarrow> i \<in> set (elems s) \<longrightarrow> 0 \<le> i \<longrightarrow> i < int (length stop_times)
        \<longrightarrow> GetUniqueStopID (stop_times ! nat i) = k)"

definition supplied_stop_index_sound :: "'id SimpleRaptorInput \<Rightarrow> bool" where
  "supplied_stop_index_sound input =
     (case StopTimesByUniqueStopId input of
        None \<Rightarrow> True
      | Some m \<Rightarrow> stop_index_sound (StopTimes input) m)"

text \<open>
  The invariant of the depart-at search for journeys that begin at an origin: a span
  chain stored for a stop starts at a stop of \<open>F\<close> (the stop itself when the chain is
  empty); every mark is filed under its own id at a stop that has a segment; every
  journey found begins at a stop of \<open>F\<close>; and the stops of \<open>D\<close> have segments.
\<close>

definition origin_chain :: "'id set \<Rightarrow> 'id \<Rightarrow> 'id RoundSegmentSpan list \<Rightarrow> bool" where
  "origin_chain F k spans = (case spans of [] \<Rightarrow> k \<in> F | sp # _ \<Rightarrow> FromUniqueStopID sp \<in> F)"

definition segments_from_origin :: "'id set \<Rightarrow> ('id \<rightharpoonup> 'id RoundSegment) \<Rightarrow> bool" where
  "segments_from_origin F segs \<longleftrightarrow> (\<forall>k g. segs k = Some g \<longrightarrow> origin_chain F k (Spans g))"

definition marks_have_segments ::
  "('id \<rightharpoonup> 'id RoundSegment) \<Rightarrow> ('id \<times> 'id RaptorMarkedStop) list \<Rightarrow> bool" where
  "marks_have_segments segs marks \<longleftrightarrow>
     (\<forall>e \<in> set marks. ID (snd e) = fst e \<and> segs (fst e) \<noteq> None)"

definition journeys_from_origin :: "'id set \<Rightarrow> 'id Journey list \<Rightarrow> bool" where
  "journeys_from_origin F js \<longleftrightarrow>
     (\<forall>j \<in> set js. Legs j \<noteq> [] \<and> Journey_FromUniqueStopID j = FromUniqueStopID (hd (Legs j))
        \<and> Journey_FromUniqueStopID j \<in> F)"

definition DepartAt_invariant :: "'id set \<Rightarrow> 'id set \<Rightarrow> 'id raptor_state \<Rightarrow> bool" where
  "DepartAt_invariant F D s \<longleftrightarrow>
     segments_from_origin F (segments s)
     \<and> marks_have_segments (segments s) (stops_marked_for_next_round s)
     \<and> journeys_from_origin F (potential_journeys_found s)
     \<and> D \<subseteq> dom (segments s)"

section \<open>The visiting order of a range over a map\<close>

text \<open>
  Every seed visits each entry once, and every order of the entries is the order of some
  seed: a property that holds under every seed holds under every order Go may choose.
\<close>

lemma mset_remove_nth:
  "i < length xs \<Longrightarrow> mset (take i xs @ drop (Suc i) xs) + {#xs ! i#} = mset xs"
proof -
  assume i: "i < length xs"
  have "xs = take i xs @ xs ! i # drop (Suc i) xs"
    using i by (simp add: id_take_nth_drop)
  then have "mset xs = mset (take i xs @ xs ! i # drop (Suc i) xs)" by simp
  then show ?thesis by simp
qed

lemma mset_range_order: "mset (range_order seed xs) = mset xs"
proof (induction seed xs rule: range_order.induct)
  case (3 c seed x xs)
  let ?l = "x # xs" and ?i = "c mod length (x # xs)"
  have i: "?i < length ?l" by simp
  have "mset (range_order (c # seed) ?l) = {#?l ! ?i#} + mset (take ?i ?l @ drop (Suc ?i) ?l)"
    using 3 by (simp del: nth_Cons_Suc nth.simps take_Suc_Cons drop_Suc_Cons mset_append)
  also have "\<dots> = mset ?l"
    using mset_remove_nth[OF i] by (simp only: add.commute)
  finally show ?case .
qed simp_all

lemma range_order_reaches:
  "mset ys = mset xs \<Longrightarrow> \<exists>seed. range_order seed xs = ys"
proof (induction ys arbitrary: xs)
  case Nil
  then show ?case by (intro exI[of _ "[]"]) simp
next
  case (Cons y ys)
  from Cons.prems have "y \<in> set xs"
    by (metis list.set_intros(1) mset_eq_setD)
  then obtain i where i: "i < length xs" "xs ! i = y"
    by (auto simp: in_set_conv_nth)
  then obtain x xs' where xs: "xs = x # xs'" by (cases xs) auto
  let ?rest = "take i xs @ drop (Suc i) xs"
  have "mset ?rest + {#y#} = mset ys + {#y#}"
    using mset_remove_nth[OF i(1)] i(2) Cons.prems by simp
  then have "mset ys = mset ?rest" by simp
  from Cons.IH[OF this] obtain seed where s: "range_order seed ?rest = ys" by blast
  have "range_order (i # seed) xs = y # ys"
    using i s unfolding xs by (simp del: nth_Cons_Suc nth.simps take_Suc_Cons drop_Suc_Cons)
  then show ?case by blast
qed

section \<open>The slice iterator\<close>

lemma drain_forward:
  "it_reverse it = False \<Longrightarrow> 0 \<le> it_index it \<Longrightarrow>
   drain it = Inr (drop (nat (it_index it)) (elems (it_data it)))"
proof (induction it rule: drain.induct)
  case (1 it)
  show ?case
  proof (cases "HasNext it")
    case False
    with 1(2,3) show ?thesis
      by (subst drain.simps) (simp add: HasNext_def go_len_def)
  next
    case True
    with 1(2,3) have lt: "nat (it_index it) < length (elems (it_data it))"
      by (simp add: HasNext_def go_len_def)
    let ?it' = "it\<lparr>it_index := it_index it + 1\<rparr>"
    from True 1(2,3) lt have nx: "Next it = Inr (elems (it_data it) ! nat (it_index it), ?it')"
      by (simp add: Next_def bindE_def go_index_def go_len_def)
    have "drain ?it' = Inr (drop (nat (it_index ?it')) (elems (it_data ?it')))"
      using 1(1)[OF True nx refl] 1(2,3) by simp
    then have "drain ?it' = Inr (drop (Suc (nat (it_index it))) (elems (it_data it)))"
      using 1(3) by (simp add: nat_add_distrib)
    with True nx lt show ?thesis
      by (subst drain.simps) (simp add: Cons_nth_drop_Suc)
  qed
qed

lemma drain_reverse:
  "it_reverse it = True \<Longrightarrow> it_index it < go_len (it_data it) \<Longrightarrow>
   drain it = Inr (rev (take (nat (it_index it + 1)) (elems (it_data it))))"
proof (induction it rule: drain.induct)
  case (1 it)
  show ?case
  proof (cases "HasNext it")
    case False
    with 1(2,3) show ?thesis
      by (subst drain.simps) (simp add: HasNext_def go_len_def)
  next
    case True
    with 1(2,3) have ge: "0 \<le> it_index it" and lt: "nat (it_index it) < length (elems (it_data it))"
      by (simp_all add: HasNext_def go_len_def)
    let ?it' = "it\<lparr>it_index := it_index it - 1\<rparr>"
    from True 1(2,3) lt ge have nx: "Next it = Inr (elems (it_data it) ! nat (it_index it), ?it')"
      by (simp add: Next_def bindE_def go_index_def go_len_def)
    have "drain ?it' = Inr (rev (take (nat (it_index ?it' + 1)) (elems (it_data ?it'))))"
      using 1(1)[OF True nx refl] 1(2,3) by simp
    then have "drain ?it' = Inr (rev (take (nat (it_index it)) (elems (it_data it))))"
      by simp
    moreover have "nat (it_index it + 1) = Suc (nat (it_index it))"
      using ge by simp
    ultimately show ?thesis using True nx lt
      by (subst drain.simps) (simp add: take_Suc_conv_app_nth)
  qed
qed

lemma drain_NewSliceIterator:
  "drain (NewSliceIterator s r) = Inr (if r then rev (elems s) else elems s)"
proof (cases r)
  case True
  then show ?thesis
    using drain_reverse[of "NewSliceIterator s True"]
    by (simp add: NewSliceIterator_def go_len_def)
next
  case False
  then show ?thesis
    using drain_forward[of "NewSliceIterator s False"]
    by (simp add: NewSliceIterator_def)
qed

lemma rev_take_drop_window:
  "n + a + c = length xs \<Longrightarrow> rev (take c (drop n xs)) = take c (drop a (rev xs))"
proof -
  assume h: "n + a + c = length xs"
  have "rev (take c (drop n xs)) = drop (length xs - n - c) (take (length xs - n) (rev xs))"
    by (simp add: rev_take rev_drop)
  also have "length xs - n - c = a" using h by simp
  also have "length xs - n = a + c" using h by simp
  also have "drop a (take (a + c) (rev xs)) = take c (drop a (rev xs))"
    by (simp add: drop_take)
  finally show ?thesis .
qed

lemma wrap64_id: "- (2 ^ 63) \<le> x \<Longrightarrow> x < 2 ^ 63 \<Longrightarrow> wrap64 x = x"
  unfolding wrap64_def by (simp add: mod_pos_pos_trivial)

lemma First_reverse:
  "elems d \<noteq> [] \<Longrightarrow> First (NewSliceIterator d True) = Inr (last (elems d))"
  by (simp add: First_def NewSliceIterator_def go_len_def go_index_def last_conv_nth
      nat_diff_distrib')

lemma go_reslice_within:
  assumes "0 \<le> lo" and "lo \<le> hi" and "hi \<le> go_len s"
  shows "\<exists>d. go_reslice s lo hi = Inr d \<and> elems d = take (nat (hi - lo)) (drop (nat lo) (elems s))"
  using assms by (simp add: go_reslice_def go_cap_def go_len_def)

text \<open>
  C7. For every slice \<open>s\<close>, direction flag \<open>r\<close>, offset \<open>off \<ge> 0\<close> and count
  \<open>cnt \<ge> 0\<close> with \<open>off + cnt\<close> at most the slice length (a Go length, so below
  \<open>2^63\<close>), \<open>SliceIterator(off, cnt)\<close> on an iterator made over \<open>s\<close> with flag
  \<open>r\<close>, wherever its index stands, returns a sub-iterator that yields exactly the
  elements at positions \<open>off\<close> to \<open>off + cnt - 1\<close> of the parent's own iteration
  order; for a reverse parent and offset 0 the first of them is the physical tail of
  the slice.
\<close>

theorem SliceIterator_yields_parent_range:
  assumes "0 \<le> off" and "0 \<le> cnt" and "off + cnt \<le> go_len s" and "go_len s < 2 ^ 63"
  shows "\<exists>sub. SliceIterator ((NewSliceIterator s r)\<lparr>it_index := i\<rparr>) off cnt = Inr sub
           \<and> drain (NewSliceIterator s r) = Inr (if r then rev (elems s) else elems s)
           \<and> drain sub = Inr (take (nat cnt) (drop (nat off) (if r then rev (elems s) else elems s)))
           \<and> (r \<and> off = 0 \<and> 0 < cnt \<longrightarrow> First sub = Inr (last (elems s)))"
proof -
  let ?p = "(NewSliceIterator s r)\<lparr>it_index := i\<rparr>"
  have len: "go_len s = int (length (elems s))" by (simp add: go_len_def)
  have parent: "drain (NewSliceIterator s r) = Inr (if r then rev (elems s) else elems s)"
    by (rule drain_NewSliceIterator)
  show ?thesis
  proof (cases r)
    case False
    have w: "add64 off cnt = off + cnt"
      unfolding add64_def using assms by (intro wrap64_id) auto
    obtain d where rs: "go_reslice s off (off + cnt) = Inr d"
      and el: "elems d = take (nat (off + cnt - off)) (drop (nat off) (elems s))"
      using go_reslice_within[of off "off + cnt" s] assms by auto
    have sub: "SliceIterator ?p off cnt = Inr (NewSliceIterator d False)"
      using False rs w by (simp add: SliceIterator_def NewSliceIterator_def bindE_def)
    have "drain (NewSliceIterator d False) = Inr (elems d)"
      using drain_NewSliceIterator[of d False] by simp
    with sub el parent False show ?thesis by simp
  next
    case True
    have w1: "sub64 (go_len s) off = go_len s - off"
      unfolding sub64_def using assms by (intro wrap64_id) auto
    have w2: "sub64 (go_len s - off) cnt = go_len s - off - cnt"
      unfolding sub64_def using assms by (intro wrap64_id) auto
    obtain d where rs: "go_reslice s (go_len s - off - cnt) (go_len s - off) = Inr d"
      and el0: "elems d = take (nat (go_len s - off - (go_len s - off - cnt)))
                           (drop (nat (go_len s - off - cnt)) (elems s))"
      using go_reslice_within[of "go_len s - off - cnt" "go_len s - off" s] assms by auto
    have el: "elems d = take (nat cnt) (drop (nat (go_len s - off - cnt)) (elems s))"
      using el0 by simp
    have sub: "SliceIterator ?p off cnt = Inr (NewSliceIterator d True)"
      using True rs w1 w2 by (simp add: SliceIterator_def NewSliceIterator_def bindE_def)
    have dr: "drain (NewSliceIterator d True) = Inr (rev (elems d))"
      using drain_NewSliceIterator[of d True] by simp
    have eq: "rev (elems d) = take (nat cnt) (drop (nat off) (rev (elems s)))"
      unfolding el by (rule rev_take_drop_window) (use assms len in linarith)
    have fst: "First (NewSliceIterator d True) = Inr (last (elems s))" if "off = 0" "0 < cnt"
    proof -
      have n: "nat (go_len s - cnt) < length (elems s)"
        using that assms len by linarith
      have e: "elems d = drop (nat (go_len s - cnt)) (elems s)"
        using that assms len el by simp
      have ne: "elems d \<noteq> []"
        using e n by simp
      have "last (elems d) = last (elems s)"
        using n by (simp only: e last_drop)
      with First_reverse[OF ne] show ?thesis by simp
    qed
    show ?thesis
      using sub dr eq parent True fst by simp
  qed
qed

theorem SliceIterator_yields_parent_range_witness:
  "\<exists>sub. SliceIterator
            ((NewSliceIterator \<lparr>elems = [10, 20, 30, 40 :: int], spare = []\<rparr> True)
               \<lparr>it_index := 1\<rparr>) 0 2 = Inr sub
         \<and> drain sub = Inr [40, 30] \<and> First sub = Inr 40"
  using SliceIterator_yields_parent_range
          [where off = 0 and cnt = 2 and r = True and i = 1
             and s = "\<lparr>elems = [10, 20, 30, 40 :: int], spare = []\<rparr>"]
  by (simp add: go_len_def) blast

section \<open>Loops and what a search changes of its result\<close>

lemma bindE_Inr: "bindE m f = Inr y \<Longrightarrow> \<exists>x. m = Inr x \<and> f x = Inr y"
  by (cases m) (simp_all add: bindE_def)

lemma for_range_invariant:
  assumes "for_range body xs s = Inr s'" and "P s"
    and "\<And>x t t'. x \<in> set xs \<Longrightarrow> P t \<Longrightarrow> body x t = Inr t' \<Longrightarrow> P t'"
  shows "P s'"
  using assms
proof (induction xs arbitrary: s)
  case Nil
  then show ?case by simp
next
  case (Cons x xs)
  from Cons.prems(1) obtain t where b: "body x s = Inr t" and r: "for_range body xs t = Inr s'"
    by (auto split: sum.splits)
  have "P t" using Cons.prems(2,3) b by auto
  then show ?case using Cons.IH[OF r] Cons.prems(3) by auto
qed

lemma Next_data:
  "Next it = Inr (x, it') \<Longrightarrow> x \<in> set (elems (it_data it)) \<and> it_data it' = it_data it"
  by (auto simp: Next_def bindE_def go_index_def go_len_def split: if_splits)

lemma for_iterator_invariant:
  assumes "for_iterator body it s = Inr s'" and "P s"
    and "\<And>x t t' b. x \<in> set (elems (it_data it)) \<Longrightarrow> P t \<Longrightarrow> body x t = Inr (t', b) \<Longrightarrow> P t'"
  shows "P s'"
  using assms
proof (induction body it s rule: for_iterator.induct)
  case (1 body it s)
  show ?case
  proof (cases "HasNext it")
    case False
    with "1.prems"(1,2) show ?thesis
      by (subst (asm) for_iterator.simps) simp
  next
    case True
    from "1.prems"(1) True obtain x it' t b where nx: "Next it = Inr (x, it')"
      and bd: "body x s = Inr (t, b)"
      and rest: "if b then s' = t else for_iterator body it' t = Inr s'"
      by (subst (asm) for_iterator.simps) (auto split: sum.splits prod.splits if_splits)
    from Next_data[OF nx] have mem: "x \<in> set (elems (it_data it))" and same: "it_data it' = it_data it"
      by auto
    have Pt: "P t" using "1.prems"(2,3) mem bd by blast
    show ?thesis
    proof (cases b)
      case True
      with rest Pt show ?thesis by simp
    next
      case False
      with rest have r: "for_iterator body it' t = Inr s'" by simp
      show ?thesis
        using "1.IH"[OF True nx refl bd refl False r Pt] "1.prems"(3) same by auto
    qed
  qed
qed

lemma check_journey_outcome:
  assumes step: "\<And>js fps spans. Q js fps \<Longrightarrow> fps (fingerprint (format_id rt) spans) = None
      \<Longrightarrow> spans \<noteq> [] \<Longrightarrow> ViaTrip (spans ! 0) \<noteq> None
      \<Longrightarrow> ViaTrip (spans ! (length spans - 1)) \<noteq> None
      \<Longrightarrow> Q (js @ [journey_of spans]) (fps(fingerprint (format_id rt) spans \<mapsto> True))"
    and "check_journey rt stop s = (s', b)"
    and "Q (potential_journeys_found s) (potential_journey_fingerprints s)"
  shows "Q (potential_journeys_found s') (potential_journey_fingerprints s')"
  using assms(2,3) step
  by (auto simp: check_journey_def Let_def GetFingerPrint_def split: option.splits if_splits)

lemma mark_arrival_and_check_outcome:
  assumes step: "\<And>js fps spans. Q js fps \<Longrightarrow> fps (fingerprint (format_id rt) spans) = None
      \<Longrightarrow> spans \<noteq> [] \<Longrightarrow> ViaTrip (spans ! 0) \<noteq> None
      \<Longrightarrow> ViaTrip (spans ! (length spans - 1)) \<noteq> None
      \<Longrightarrow> Q (js @ [journey_of spans]) (fps(fingerprint (format_id rt) spans \<mapsto> True))"
    and run: "mark_arrival_and_check rt terminal stop s = (s', b)"
    and Q: "Q (potential_journeys_found s) (potential_journey_fingerprints s)"
  shows "Q (potential_journeys_found s') (potential_journey_fingerprints s')"
proof (cases "terminal stop = None")
  case True
  with run Q show ?thesis
    by (auto simp: mark_arrival_and_check_def Let_def)
next
  case False
  let ?s3 = "s\<lparr>stops_marked_for_next_round :=
                  go_map_store stop \<lparr>ID = stop, Source = RaptorMarkedStopSourceArrival\<rparr>
                    (stops_marked_for_next_round s)\<rparr>"
  from False run have c: "check_journey rt stop ?s3 = (s', b)"
    by (simp add: mark_arrival_and_check_def Let_def)
  show ?thesis
    by (rule check_journey_outcome[where Q = Q, OF step c]) (use Q in simp_all)
qed

lemma mark_transfer_outcome:
  "potential_journeys_found (mark_transfer stop s) = potential_journeys_found s
   \<and> potential_journey_fingerprints (mark_transfer stop s) = potential_journey_fingerprints s"
  by (simp add: mark_transfer_def)

lemma DepartAt_transfer_outcome:
  assumes "DepartAt_transfer p f e i s = Inr s'"
  shows "potential_journeys_found s' = potential_journeys_found s
       \<and> potential_journey_fingerprints s' = potential_journey_fingerprints s"
  using assms
  by (auto simp: DepartAt_transfer_def Let_def mark_transfer_outcome dest!: bindE_Inr
      split: if_splits)

lemma ArriveBy_transfer_outcome:
  assumes "ArriveBy_transfer p f e i s = Inr s'"
  shows "potential_journeys_found s' = potential_journeys_found s
       \<and> potential_journey_fingerprints s' = potential_journey_fingerprints s"
  using assms
  by (auto simp: ArriveBy_transfer_def Let_def mark_transfer_outcome dest!: bindE_Inr
      split: if_splits)

lemma DepartAt_improve_outcome:
  assumes "DepartAt_improve input p m cur st fol s = Inr s'"
  shows "potential_journeys_found s' = potential_journeys_found s
       \<and> potential_journey_fingerprints s' = potential_journey_fingerprints s"
proof -
  let ?P = "\<lambda>s0 t. potential_journeys_found t = potential_journeys_found s0
       \<and> potential_journey_fingerprints t = potential_journey_fingerprints s0"
  have tr: "?P s t'" if "for_range (DepartAt_transfer p fol e) xs t = Inr t'" "?P s t" for t t' e xs
    by (rule for_range_invariant[where P = "?P s", OF that(1) that(2)])
      (use DepartAt_transfer_outcome in metis)
  from assms show ?thesis
    by (auto simp: DepartAt_improve_def Let_def split: if_splits dest!: tr)
qed

lemma ArriveBy_improve_outcome:
  assumes "ArriveBy_improve input p m cur st fol s = Inr s'"
  shows "potential_journeys_found s' = potential_journeys_found s
       \<and> potential_journey_fingerprints s' = potential_journey_fingerprints s"
proof -
  let ?P = "\<lambda>s0 t. potential_journeys_found t = potential_journeys_found s0
       \<and> potential_journey_fingerprints t = potential_journey_fingerprints s0"
  have tr: "?P s t'" if "for_range (ArriveBy_transfer p fol e) xs t = Inr t'" "?P s t" for t t' e xs
    by (rule for_range_invariant[where P = "?P s", OF that(1) that(2)])
      (use ArriveBy_transfer_outcome in metis)
  from assms show ?thesis
    by (auto simp: ArriveBy_improve_def Let_def split: if_splits dest!: tr)
qed

lemma DepartAt_following_outcome:
  assumes step: "\<And>js fps spans. Q js fps \<Longrightarrow> fps (fingerprint (format_id rt) spans) = None
      \<Longrightarrow> spans \<noteq> [] \<Longrightarrow> ViaTrip (spans ! 0) \<noteq> None
      \<Longrightarrow> ViaTrip (spans ! (length spans - 1)) \<noteq> None
      \<Longrightarrow> Q (js @ [journey_of spans]) (fps(fingerprint (format_id rt) spans \<mapsto> True))"
    and run: "DepartAt_following rt input p m cur st i s = Inr (s', b)"
    and Q: "Q (potential_journeys_found s) (potential_journey_fingerprints s)"
  shows "Q (potential_journeys_found s') (potential_journey_fingerprints s')"
proof -
  from run obtain fol s2 where imp: "DepartAt_improve input p m cur st fol s = Inr s2"
    and fin: "mark_arrival_and_check rt (ToStopsByUniqueStopId p) (GetUniqueStopID fol) s2 = (s', b)"
    unfolding DepartAt_following_def by (auto dest!: bindE_Inr)
  from DepartAt_improve_outcome[OF imp] Q
  have Q2: "Q (potential_journeys_found s2) (potential_journey_fingerprints s2)" by simp
  show ?thesis
    by (rule mark_arrival_and_check_outcome[where Q = Q, OF step fin Q2])
qed

lemma ArriveBy_preceeding_outcome:
  assumes step: "\<And>js fps spans. Q js fps \<Longrightarrow> fps (fingerprint (format_id rt) spans) = None
      \<Longrightarrow> spans \<noteq> [] \<Longrightarrow> ViaTrip (spans ! 0) \<noteq> None
      \<Longrightarrow> ViaTrip (spans ! (length spans - 1)) \<noteq> None
      \<Longrightarrow> Q (js @ [journey_of spans]) (fps(fingerprint (format_id rt) spans \<mapsto> True))"
    and run: "ArriveBy_preceeding rt input p m cur st i s = Inr (s', b)"
    and Q: "Q (potential_journeys_found s) (potential_journey_fingerprints s)"
  shows "Q (potential_journeys_found s') (potential_journey_fingerprints s')"
proof -
  from run obtain fol s2 where imp: "ArriveBy_improve input p m cur st fol s = Inr s2"
    and fin: "mark_arrival_and_check rt (FromStopsByUniqueStopId p) (GetUniqueStopID fol) s2 = (s', b)"
    unfolding ArriveBy_preceeding_def by (auto dest!: bindE_Inr)
  from ArriveBy_improve_outcome[OF imp] Q
  have Q2: "Q (potential_journeys_found s2) (potential_journey_fingerprints s2)" by simp
  show ?thesis
    by (rule mark_arrival_and_check_outcome[where Q = Q, OF step fin Q2])
qed

lemma DepartAt_board_outcome:
  assumes step: "\<And>js fps spans. Q js fps \<Longrightarrow> fps (fingerprint (format_id rt) spans) = None
      \<Longrightarrow> spans \<noteq> [] \<Longrightarrow> ViaTrip (spans ! 0) \<noteq> None
      \<Longrightarrow> ViaTrip (spans ! (length spans - 1)) \<noteq> None
      \<Longrightarrow> Q (js @ [journey_of spans]) (fps(fingerprint (format_id rt) spans \<mapsto> True))"
    and run: "DepartAt_board rt input p m cur i s = Inr (s', b)"
    and Q: "Q (potential_journeys_found s) (potential_journey_fingerprints s)"
  shows "Q (potential_journeys_found s') (potential_journey_fingerprints s')"
proof -
  let ?P = "\<lambda>t. Q (potential_journeys_found t) (potential_journey_fingerprints t)"
  have loop: "?P t'" if "for_iterator (DepartAt_following rt input p m cur st) it t = Inr t'" "?P t"
    for st it t t'
    by (rule for_iterator_invariant[where P = ?P, OF that(1) that(2)])
      (rule DepartAt_following_outcome[where Q = Q, OF step])
  from run Q show ?thesis
    unfolding DepartAt_board_def
    by (auto simp: Let_def split: if_splits dest!: bindE_Inr loop)
qed

lemma ArriveBy_alight_outcome:
  assumes step: "\<And>js fps spans. Q js fps \<Longrightarrow> fps (fingerprint (format_id rt) spans) = None
      \<Longrightarrow> spans \<noteq> [] \<Longrightarrow> ViaTrip (spans ! 0) \<noteq> None
      \<Longrightarrow> ViaTrip (spans ! (length spans - 1)) \<noteq> None
      \<Longrightarrow> Q (js @ [journey_of spans]) (fps(fingerprint (format_id rt) spans \<mapsto> True))"
    and run: "ArriveBy_alight rt input p m cur i s = Inr (s', b)"
    and Q: "Q (potential_journeys_found s) (potential_journey_fingerprints s)"
  shows "Q (potential_journeys_found s') (potential_journey_fingerprints s')"
proof -
  let ?P = "\<lambda>t. Q (potential_journeys_found t) (potential_journey_fingerprints t)"
  have loop: "?P t'" if "for_iterator (ArriveBy_preceeding rt input p m cur st) it t = Inr t'" "?P t"
    for st it t t'
    by (rule for_iterator_invariant[where P = ?P, OF that(1) that(2)])
      (rule ArriveBy_preceeding_outcome[where Q = Q, OF step])
  from run Q show ?thesis
    unfolding ArriveBy_alight_def
    by (auto simp: Let_def split: if_splits dest!: bindE_Inr loop)
qed

lemma DepartAt_marked_stop_outcome:
  assumes step: "\<And>js fps spans. Q js fps \<Longrightarrow> fps (fingerprint (format_id rt) spans) = None
      \<Longrightarrow> spans \<noteq> [] \<Longrightarrow> ViaTrip (spans ! 0) \<noteq> None
      \<Longrightarrow> ViaTrip (spans ! (length spans - 1)) \<noteq> None
      \<Longrightarrow> Q (js @ [journey_of spans]) (fps(fingerprint (format_id rt) spans \<mapsto> True))"
    and run: "DepartAt_marked_stop rt input p m s = Inr s'"
    and Q: "Q (potential_journeys_found s) (potential_journey_fingerprints s)"
  shows "Q (potential_journeys_found s') (potential_journey_fingerprints s')"
  using run unfolding DepartAt_marked_stop_def Let_def
  by (rule for_iterator_invariant[where P = "\<lambda>t. Q (potential_journeys_found t) (potential_journey_fingerprints t)"])
    (use Q DepartAt_board_outcome[where Q = Q, OF step] in blast)+

lemma ArriveBy_marked_stop_outcome:
  assumes step: "\<And>js fps spans. Q js fps \<Longrightarrow> fps (fingerprint (format_id rt) spans) = None
      \<Longrightarrow> spans \<noteq> [] \<Longrightarrow> ViaTrip (spans ! 0) \<noteq> None
      \<Longrightarrow> ViaTrip (spans ! (length spans - 1)) \<noteq> None
      \<Longrightarrow> Q (js @ [journey_of spans]) (fps(fingerprint (format_id rt) spans \<mapsto> True))"
    and run: "ArriveBy_marked_stop rt input p m s = Inr s'"
    and Q: "Q (potential_journeys_found s) (potential_journey_fingerprints s)"
  shows "Q (potential_journeys_found s') (potential_journey_fingerprints s')"
  using run unfolding ArriveBy_marked_stop_def Let_def
  by (rule for_iterator_invariant[where P = "\<lambda>t. Q (potential_journeys_found t) (potential_journey_fingerprints t)"])
    (use Q ArriveBy_alight_outcome[where Q = Q, OF step] in blast)+

lemma DepartAt_rounds_outcome:
  assumes step: "\<And>js fps spans. Q js fps \<Longrightarrow> fps (fingerprint (format_id rt) spans) = None
      \<Longrightarrow> spans \<noteq> [] \<Longrightarrow> ViaTrip (spans ! 0) \<noteq> None
      \<Longrightarrow> ViaTrip (spans ! (length spans - 1)) \<noteq> None
      \<Longrightarrow> Q (js @ [journey_of spans]) (fps(fingerprint (format_id rt) spans \<mapsto> True))"
    and run: "DepartAt_rounds rt input p n r marked s = Inr s'"
    and Q: "Q (potential_journeys_found s) (potential_journey_fingerprints s)"
  shows "Q (potential_journeys_found s') (potential_journey_fingerprints s')"
  using run Q
proof (induction n arbitrary: r marked s)
  case 0
  then show ?case by simp
next
  case (Suc n)
  let ?P = "\<lambda>t. Q (potential_journeys_found t) (potential_journey_fingerprints t)"
  from Suc.prems(1) obtain t where
    round: "for_range (DepartAt_marked_stop rt input p)
              (map snd (range_order (map_iteration rt r) marked))
              (s\<lparr>stops_marked_for_next_round := []\<rparr>) = Inr t"
    and rest: "DepartAt_rounds rt input p n (Suc r) (stops_marked_for_next_round t) t = Inr s'"
    by (auto split: sum.splits)
  have "?P t"
    by (rule for_range_invariant[where P = ?P, OF round])
      (use Suc.prems(2) DepartAt_marked_stop_outcome[where Q = Q, OF step] in auto)
  then show ?case by (rule Suc.IH[OF rest])
qed

lemma ArriveBy_rounds_outcome:
  assumes step: "\<And>js fps spans. Q js fps \<Longrightarrow> fps (fingerprint (format_id rt) spans) = None
      \<Longrightarrow> spans \<noteq> [] \<Longrightarrow> ViaTrip (spans ! 0) \<noteq> None
      \<Longrightarrow> ViaTrip (spans ! (length spans - 1)) \<noteq> None
      \<Longrightarrow> Q (js @ [journey_of spans]) (fps(fingerprint (format_id rt) spans \<mapsto> True))"
    and run: "ArriveBy_rounds rt input p n r marked s = Inr s'"
    and Q: "Q (potential_journeys_found s) (potential_journey_fingerprints s)"
  shows "Q (potential_journeys_found s') (potential_journey_fingerprints s')"
  using run Q
proof (induction n arbitrary: r marked s)
  case 0
  then show ?case by simp
next
  case (Suc n)
  let ?P = "\<lambda>t. Q (potential_journeys_found t) (potential_journey_fingerprints t)"
  from Suc.prems(1) obtain t where
    round: "for_range (ArriveBy_marked_stop rt input p)
              (map snd (range_order (map_iteration rt r) marked))
              (s\<lparr>stops_marked_for_next_round := []\<rparr>) = Inr t"
    and rest: "ArriveBy_rounds rt input p n (Suc r) (stops_marked_for_next_round t) t = Inr s'"
    by (auto split: sum.splits)
  have "?P t"
    by (rule for_range_invariant[where P = ?P, OF round])
      (use Suc.prems(2) ArriveBy_marked_stop_outcome[where Q = Q, OF step] in auto)
  then show ?case by (rule Suc.IH[OF rest])
qed

text \<open>
  Whatever holds of no journeys and no fingerprints, and is kept when an accepted
  segment is appended, holds of the journeys a search returns with some fingerprint map.
\<close>

lemma SimpleRaptor_outcome:
  assumes step: "\<And>js fps spans. Q js fps \<Longrightarrow> fps (fingerprint (format_id rt) spans) = None
      \<Longrightarrow> spans \<noteq> [] \<Longrightarrow> ViaTrip (spans ! 0) \<noteq> None
      \<Longrightarrow> ViaTrip (spans ! (length spans - 1)) \<noteq> None
      \<Longrightarrow> Q (js @ [journey_of spans]) (fps(fingerprint (format_id rt) spans \<mapsto> True))"
    and init: "Q [] Map.empty"
    and run: "SimpleRaptor rt input = Inr js"
  shows "\<exists>fps. Q js fps"
proof (cases "Mode input = RaptorModeDepartAt")
  case True
  with run obtain s where r: "DepartAt_rounds rt input (PrepareRaptorInput rt input)
       (nat (MaximumTransfers input)) 0 (initial_marks (FromStops input))
       (initial_state (FromStops input) (TimeInSeconds input)) = Inr s"
    and js: "js = potential_journeys_found s"
    by (auto simp: SimpleRaptor_def SimpleRaptorDepartAt_def Let_def dest!: bindE_Inr)
  have "Q (potential_journeys_found s) (potential_journey_fingerprints s)"
    apply (rule DepartAt_rounds_outcome[where Q = Q, OF step r])
         apply assumption+
    apply (simp add: initial_state_def init)
    done
  with js show ?thesis by blast
next
  case False
  with run obtain s where r: "ArriveBy_rounds rt input (PrepareRaptorInput rt input)
       (nat (MaximumTransfers input)) 0 (initial_marks (ToStops input))
       (initial_state (ToStops input) (TimeInSeconds input)) = Inr s"
    and js: "js = potential_journeys_found s"
    by (auto simp: SimpleRaptor_def SimpleRaptorArriveBy_def Let_def dest!: bindE_Inr)
  have "Q (potential_journeys_found s) (potential_journey_fingerprints s)"
    apply (rule ArriveBy_rounds_outcome[where Q = Q, OF step r])
         apply assumption+
    apply (simp add: initial_state_def init)
    done
  with js show ?thesis by blast
qed

lemma journey_of_Legs: "Legs (journey_of spans) = spans"
  by (simp add: journey_of_def Let_def)

text \<open>
  C3. For every input, runtime and mode, every journey \<open>SimpleRaptor\<close> returns has a
  non-empty \<open>Legs\<close> sequence whose first and last leg have a non-nil \<open>ViaTrip\<close>: no
  returned journey begins or ends with a walking transfer.
\<close>

theorem SimpleRaptor_boundary_legs_in_vehicle:
  assumes "SimpleRaptor rt input = Inr js" and "j \<in> set js"
  shows "Legs j \<noteq> [] \<and> ViaTrip (hd (Legs j)) \<noteq> None \<and> ViaTrip (last (Legs j)) \<noteq> None"
proof -
  let ?Q = "\<lambda>js (fps :: string \<rightharpoonup> bool). \<forall>j \<in> set js.
      Legs j \<noteq> [] \<and> ViaTrip (hd (Legs j)) \<noteq> None \<and> ViaTrip (last (Legs j)) \<noteq> None"
  have "\<exists>fps. ?Q js fps"
    by (rule SimpleRaptor_outcome[where Q = ?Q, OF _ _ assms(1)])
      (auto simp: journey_of_Legs hd_conv_nth last_conv_nth)
  with assms(2) show ?thesis by blast
qed

text \<open>
  C8. For every input, runtime and mode, the journeys \<open>SimpleRaptor\<close> returns have
  pairwise distinct fingerprints, the fingerprint of a journey being that of its legs:
  for each leg \<open>from|trip|to\<close> (the trip empty for a walking leg), joined by \<open>->\<close>.
\<close>

theorem SimpleRaptor_fingerprints_distinct:
  assumes "SimpleRaptor rt input = Inr js"
  shows "distinct (map (\<lambda>j. fingerprint (format_id rt) (Legs j)) js)"
proof -
  let ?fp = "\<lambda>j. fingerprint (format_id rt) (Legs j)"
  let ?Q = "\<lambda>js (fps :: string \<rightharpoonup> bool). distinct (map ?fp js) \<and> (\<forall>j \<in> set js. fps (?fp j) \<noteq> None)"
  have "\<exists>fps. ?Q js fps"
    by (rule SimpleRaptor_outcome[where Q = ?Q, OF _ _ assms(1)])
      (auto simp: journey_of_Legs)
  then show ?thesis by blast
qed

subsection \<open>The scenarios, evaluated\<close>

text \<open>
  The definitions a run unfolds to when the runtime's visiting order and identifier
  format are left open; a round over a single marked stop has one order only.
\<close>

lemma elems_go_append: "elems (go_append grow s x) = elems s @ [x]"
  by (simp add: go_append_def split: list.splits)

lemma range_order_single: "range_order seed [x] = [x]"
  by (cases seed) simp_all

lemmas run_defs =
  SimpleRaptor_def SimpleRaptorArriveBy_def SimpleRaptorDepartAt_def plain_input_def
  RaptorModeArriveBy_def RaptorModeDepartAt_def PrepareRaptorInput_def Let_def
  stop_time_def file_index_def slice_of_def nil_slice_def
  stops_by_unique_stop_id_def initial_marks_def initial_state_def initial_segments_def
  bindE_def numeral_nat for_iterator.simps NewSliceIterator_def HasNext_def Next_def
  go_index_def go_len_def go_cap_def list_at_def segment_arrival_def segment_spans_def
  First_def Length_def SliceIterator_def go_reslice_def add64_def sub64_def wrap64_def
  RaptorMarkedStopSourceArrival_def RaptorMarkedStopSourceTransfer_def range_order_single
  ArriveBy_marked_stop_def ArriveBy_alight_def ArriveBy_preceeding_stop_times_def
  ArriveBy_preceeding_def ArriveBy_improve_def ArriveBy_ride_segment_def ArriveBy_transfer_def
  DepartAt_marked_stop_def DepartAt_board_def DepartAt_following_stop_times_def
  DepartAt_following_def DepartAt_improve_def DepartAt_ride_segment_def DepartAt_transfer_def
  mark_arrival_and_check_def mark_transfer_def check_journey_def GetFingerPrint_def

lemma two_trips_run:
  "SimpleRaptor gc_runtime two_trips_input =
     Inr [journey_of [ride ''A'' ''B'' ''X'' 1 2 100 200],
          journey_of [ride ''A'' ''D'' ''Y'' 1 2 110 210]]"
  by code_simp

lemma two_trips_DepartAt_run:
  "SimpleRaptorDepartAt gc_runtime two_trips_input =
     Inr [journey_of [ride ''A'' ''B'' ''X'' 1 2 100 200],
          journey_of [ride ''A'' ''D'' ''Y'' 1 2 110 210]]"
  by code_simp

theorem SimpleRaptor_boundary_legs_in_vehicle_witness:
  "SimpleRaptor gc_runtime two_trips_input =
     Inr [journey_of [ride ''A'' ''B'' ''X'' 1 2 100 200],
          journey_of [ride ''A'' ''D'' ''Y'' 1 2 110 210]]
   \<and> Legs (journey_of [ride ''A'' ''D'' ''Y'' 1 2 110 210]) \<noteq> []
   \<and> ViaTrip (hd (Legs (journey_of [ride ''A'' ''D'' ''Y'' 1 2 110 210]))) \<noteq> None
   \<and> ViaTrip (last (Legs (journey_of [ride ''A'' ''D'' ''Y'' 1 2 110 210]))) \<noteq> None"
  using two_trips_run
    SimpleRaptor_boundary_legs_in_vehicle
      [OF two_trips_run, of "journey_of [ride ''A'' ''D'' ''Y'' 1 2 110 210]"]
  by simp

theorem SimpleRaptor_fingerprints_distinct_witness:
  "distinct (map (\<lambda>j. fingerprint (format_id gc_runtime) (Legs j))
      [journey_of [ride ''A'' ''B'' ''X'' 1 2 100 200],
       journey_of [ride ''A'' ''D'' ''Y'' 1 2 110 210]])
   \<and> map (\<lambda>j. fingerprint (format_id gc_runtime) (Legs j))
        [journey_of [ride ''A'' ''B'' ''X'' 1 2 100 200],
         journey_of [ride ''A'' ''D'' ''Y'' 1 2 110 210]] = [''A|X|B'', ''A|Y|D'']"
  using SimpleRaptor_fingerprints_distinct [OF two_trips_run]
  by (simp add: fingerprint_def span_part_def journey_of_def ride_def gc_runtime_def)

text \<open>
  With spare capacity in the trip's index slice the single-trip scenario S1 returns the
  journey its test expects.
\<close>

lemma S1_returns_with_spare_capacity:
  "SimpleRaptor roomy_runtime S1_input =
     Inr [journey_of [ride ''High'' ''Franklin'' ''A_20250823'' 5 6 (T_ref + 10) (T_ref + 120)]]"
  by code_simp

text \<open>
  C1. Scenario S1 (depart-at, from High to Franklin, the single trip, reference time
  \<open>T\<close>, four rounds) is claimed to return exactly one journey. With the gc runtime's
  capacities, whatever the visiting order and the identifier format, the search
  instead panics: boarding at High it asks the trip's two-position index slice, whose
  capacity is 2, for the sub-iterator of \<open>Length() = 2\<close> items from offset 1, that is
  for \<open>data[1:3]\<close>.
\<close>

theorem S1_depart_at_panics:
  "SimpleRaptor (rt\<lparr>growslice := gc_growslice\<rparr>) S1_input = Inl SliceBoundsOutOfRange"
  by (simp add: run_defs go_append_def gc_growslice_def S1_input_def single_trip_def T_ref_def)

text \<open>
  C2. Scenario S2 (arrive-by on the same timetable in the same ascending order,
  reference time \<open>T + 120\<close>) is claimed to return one journey departing at \<open>T + 10\<close>.
  Under every runtime the search instead panics: alighting at Franklin it asks the
  reversed trip iterator for the sub-iterator of 2 items from offset 1, that is for
  \<open>data[-1:1]\<close>.
\<close>

theorem S2_arrive_by_panics:
  "SimpleRaptor rt S2_input = Inl SliceBoundsOutOfRange"
  by (simp add: run_defs elems_go_append S2_input_def single_trip_def T_ref_def)

text \<open>
  C4. Every returned journey is claimed to have at most \<open>MaximumTransfers\<close> legs with a
  \<open>ViaTrip\<close>. With \<open>MaximumTransfers = 2\<close> the depart-at search returns a journey of
  four rides: in the second round the segment of \<open>M2\<close> is improved while \<open>M1\<close> is
  visited and extended again when \<open>M2\<close> is visited, and likewise \<open>M3\<close>.
\<close>

theorem MaximumTransfers_exceeded_within_round:
  "SimpleRaptor gc_runtime chained_trips_input =
     Inr [journey_of [ride ''A'' ''M1'' ''local'' 1 2 10 20,
                      ride ''M1'' ''M2'' ''express1'' 1 2 30 40,
                      ride ''M2'' ''M3'' ''express2'' 1 2 50 60,
                      ride ''M3'' ''D'' ''shuttle'' 1 2 70 80]]"
  by code_simp

text \<open>
  C5. Under the input precondition every leg of a returned journey is claimed to depart
  no later than it arrives. With the gc runtime's capacities, whatever the visiting
  order and the identifier format, the depart-at search returns a leg from \<open>A\<close> to
  \<open>D\<close> that departs at 100 and arrives at 0: boarding the three-stop trip at \<open>A\<close> it
  takes the sub-iterator \<open>data[1:4]\<close> of the trip's index slice of length 3 and
  capacity 4, whose last cell is the zero of the spare capacity, and so reads stop time
  0, of the early trip, as a stop time that follows on this trip.
\<close>

theorem ride_arrives_before_it_departs:
  "SimpleRaptor (rt\<lparr>growslice := gc_growslice\<rparr>) early_and_late_input =
     Inr [journey_of [ride ''A'' ''D'' ''early'' 1 1 100 0]]"
  by (simp add: run_defs go_append_def gc_growslice_def early_and_late_input_def
      early_and_late_trip_def journey_of_def ride_def)

section \<open>Supplying the indices\<close>




subsection \<open>Mode values\<close>

text \<open>
  C9, as stated, fails: under the mode \<open>express\<close>, neither \<open>depart_at\<close> nor
  \<open>arrive_by\<close>, \<open>SimpleRaptor\<close> returns normally, with no journey on the single trip
  when the reference time is before every arrival and with a journey when the trip's
  stop times are given in descending order.
\<close>

theorem SimpleRaptor_unknown_mode_returns:
  "SimpleRaptor gc_runtime unknown_mode_input = Inr []
   \<and> SimpleRaptor gc_runtime unknown_mode_reversed_input =
       Inr [journey_of
              [ride ''High'' ''Franklin'' ''A_20250823'' 5 6 (T_ref + 10) (T_ref + 120)]]"
  by code_simp

text \<open>
  C9, amended. \<open>SimpleRaptor\<close> rejects no mode value: every mode other than
  \<open>depart_at\<close> is searched as \<open>arrive_by\<close>, and the call returns what
  \<open>SimpleRaptorArriveBy\<close> returns.
\<close>

theorem SimpleRaptor_other_mode_is_ArriveBy:
  "Mode input \<noteq> RaptorModeDepartAt \<Longrightarrow> SimpleRaptor rt input = SimpleRaptorArriveBy rt input"
  by (simp add: SimpleRaptor_def)

theorem SimpleRaptor_other_mode_is_ArriveBy_witness:
  "SimpleRaptor gc_runtime unknown_mode_input = SimpleRaptorArriveBy gc_runtime unknown_mode_input"
  using SimpleRaptor_other_mode_is_ArriveBy [of unknown_mode_input gc_runtime]
  by (simp add: unknown_mode_input_def plain_input_def RaptorModeDepartAt_def)

section \<open>Journeys begin at an origin\<close>

text \<open>
  C10, as stated, fails: with origin \<open>Z\<close> and a supplied stop index that files the
  stop time at \<open>A\<close> under \<open>Z\<close>, the depart-at search returns a journey that begins at
  \<open>A\<close>, which is no stop of \<open>FromStops\<close>.
\<close>

theorem DepartAt_misfiled_index_journey_not_from_origin:
  "SimpleRaptorDepartAt gc_runtime misfiled_index_input =
     Inr [journey_of [ride ''A'' ''B'' ''X'' 1 2 100 200]]
   \<and> Journey_FromUniqueStopID (journey_of [ride ''A'' ''B'' ''X'' 1 2 100 200]) = ''A''
   \<and> map GetUniqueID (FromStops misfiled_index_input) = [''Z'']"
  by code_simp

lemma set_go_map_store: "set (go_map_store k v m) \<subseteq> insert (k, v) (set m)"
  by (induction m) auto

lemma marks_have_segments_store:
  "marks_have_segments segs m \<Longrightarrow> segs k \<noteq> None \<Longrightarrow> ID v = k
   \<Longrightarrow> marks_have_segments segs (go_map_store k v m)"
  using set_go_map_store[of k v m] by (fastforce simp: marks_have_segments_def)

lemma marks_have_segments_upd:
  "marks_have_segments segs m \<Longrightarrow> marks_have_segments (segs(k \<mapsto> g)) m"
  by (auto simp: marks_have_segments_def)

lemma segments_from_origin_upd:
  "segments_from_origin F segs \<Longrightarrow> origin_chain F k (Spans g)
   \<Longrightarrow> segments_from_origin F (segs(k \<mapsto> g))"
  by (auto simp: segments_from_origin_def)

lemma origin_chain_append:
  "origin_chain F k spans \<Longrightarrow> FromUniqueStopID sp = k \<Longrightarrow> origin_chain F k' (spans @ [sp])"
  by (cases spans) (auto simp: origin_chain_def)

lemma origin_chain_nonempty:
  "spans \<noteq> [] \<Longrightarrow> origin_chain F k spans \<longleftrightarrow> FromUniqueStopID (hd spans) \<in> F"
  by (cases spans) (auto simp: origin_chain_def)

lemma invariant_mono: "DepartAt_invariant F D s \<Longrightarrow> D' \<subseteq> D \<Longrightarrow> DepartAt_invariant F D' s"
  by (auto simp: DepartAt_invariant_def)

lemma invariant_store_segment:
  assumes "DepartAt_invariant F D s" and "origin_chain F k (Spans g)"
  shows "DepartAt_invariant F (insert k D) (s\<lparr>segments := (segments s)(k \<mapsto> g)\<rparr>)"
  using assms
  by (auto simp: DepartAt_invariant_def marks_have_segments_upd segments_from_origin_upd)

lemma invariant_mark:
  assumes "DepartAt_invariant F D s" and "segments s k \<noteq> None" and "ID v = k"
  shows "DepartAt_invariant F D
           (s\<lparr>stops_marked_for_next_round := go_map_store k v (stops_marked_for_next_round s)\<rparr>)"
  using assms by (auto simp: DepartAt_invariant_def marks_have_segments_store)

lemma invariant_DepartAt_transfer:
  assumes inv: "DepartAt_invariant F D s"
    and e: "Spans e \<noteq> []" "FromUniqueStopID (hd (Spans e)) \<in> F"
    and run: "DepartAt_transfer p fol e i s = Inr s'"
  shows "DepartAt_invariant F D s'"
proof -
  from run obtain tr where tr: "list_at (Transfers (Input p)) i = Inr tr"
    by (auto simp: DepartAt_transfer_def dest!: bindE_Inr)
  let ?to = "GetToUniqueStopID tr"
  let ?mark = "\<lambda>t. t\<lparr>stops_marked_for_next_round :=
                 go_map_store ?to \<lparr>ID = ?to, Source = RaptorMarkedStopSourceTransfer\<rparr>
                   (stops_marked_for_next_round t)\<rparr>"
  let ?at = "add64 (GetArrivalTimeInSeconds fol) (GetMinimumTransferTimeInSeconds tr)"
  let ?g = "\<lparr>UniqueStopID = ?to, ArrivalTimeInSeconds = ?at,
             Spans = Spans e @
               [\<lparr>FromUniqueStopID = GetUniqueStopID fol, ToUniqueStopID = ?to, ViaTrip = None,
                 ArrivalTimeInSecondsToUniqueStopID = ?at,
                 DepartureTimeInSecondsFromUniqueStopID = GetArrivalTimeInSeconds fol\<rparr>]\<rparr>"
  have ch: "origin_chain F ?to (Spans ?g)"
    using e by (simp add: origin_chain_nonempty)
  show ?thesis
  proof (cases "segments s ?to = None \<or> segment_arrival (segments s ?to) > ?at")
    case True
    let ?s1 = "s\<lparr>segments := (segments s)(?to \<mapsto> ?g)\<rparr>"
    have i1: "DepartAt_invariant F (insert ?to D) ?s1"
      by (rule invariant_store_segment[OF inv ch])
    have s': "s' = (if map_of (stops_marked_for_next_round s) ?to = None then ?mark ?s1 else ?s1)"
      using run tr True by (auto simp: DepartAt_transfer_def bindE_def Let_def mark_transfer_def)
    have "DepartAt_invariant F (insert ?to D) (?mark ?s1)"
      by (rule invariant_mark[OF i1]) simp_all
    with i1 s' show ?thesis by (auto intro: invariant_mono)
  next
    case False
    then have ex: "segments s ?to \<noteq> None" by auto
    have s': "s' = (if map_of (stops_marked_for_next_round s) ?to = None then ?mark s else s)"
      using run tr False by (auto simp: DepartAt_transfer_def bindE_def Let_def mark_transfer_def)
    have "DepartAt_invariant F D (?mark s)"
      by (rule invariant_mark[OF inv ex]) simp
    with inv s' show ?thesis by auto
  qed
qed

lemma invariant_DepartAt_improve:
  assumes inv: "DepartAt_invariant F D s"
    and cur: "origin_chain F (GetUniqueStopID st) (segment_spans cur)"
    and run: "DepartAt_improve input p m cur st fol s = Inr s'"
  shows "DepartAt_invariant F (insert (GetUniqueStopID fol) D) s'"
proof (cases "segments s (GetUniqueStopID fol) = None
    \<or> segment_arrival (segments s (GetUniqueStopID fol)) > GetArrivalTimeInSeconds fol")
  case False
  with run have "s' = s" by (simp add: DepartAt_improve_def Let_def)
  moreover from False have "GetUniqueStopID fol \<in> dom (segments s)" by auto
  ultimately show ?thesis using inv by (auto simp: DepartAt_invariant_def)
next
  case True
  let ?e = "DepartAt_ride_segment cur st fol"
  let ?s1 = "s\<lparr>segments := (segments s)(GetUniqueStopID fol \<mapsto> ?e)\<rparr>"
  have sp: "Spans ?e \<noteq> []" by (simp add: DepartAt_ride_segment_def)
  have ch: "origin_chain F (GetUniqueStopID fol) (Spans ?e)"
    unfolding DepartAt_ride_segment_def using cur by (auto intro: origin_chain_append)
  then have hd: "FromUniqueStopID (hd (Spans ?e)) \<in> F"
    using sp by (simp add: origin_chain_nonempty)
  have i1: "DepartAt_invariant F (insert (GetUniqueStopID fol) D) ?s1"
    by (rule invariant_store_segment[OF inv ch])
  show ?thesis
  proof (cases "AllowTransferHopping input \<or> Source m = RaptorMarkedStopSourceArrival")
    case False
    with run True have "s' = ?s1" by (auto simp: DepartAt_improve_def Let_def)
    with i1 show ?thesis by simp
  next
    case hop: True
    with run True have r: "for_range (DepartAt_transfer p fol ?e)
        (elems (slice_of (Prepared_TransfersByUniqueStopId p) (GetUniqueStopID fol))) ?s1 = Inr s'"
      by (auto simp: DepartAt_improve_def Let_def)
    show ?thesis
      by (rule for_range_invariant[where P = "DepartAt_invariant F (insert (GetUniqueStopID fol) D)",
            OF r i1])
        (rule invariant_DepartAt_transfer[OF _ sp hd])
  qed
qed

lemma journey_of_from:
  "spans \<noteq> [] \<Longrightarrow> Journey_FromUniqueStopID (journey_of spans) = FromUniqueStopID (hd spans)"
  by (simp add: journey_of_def Let_def hd_conv_nth)

lemma invariant_mark_arrival_and_check:
  assumes inv: "DepartAt_invariant F D s" and lab: "stop \<in> D"
    and run: "mark_arrival_and_check rt terminal stop s = (s', b)"
  shows "DepartAt_invariant F D s'"
proof -
  let ?s3 = "s\<lparr>stops_marked_for_next_round :=
                  go_map_store stop \<lparr>ID = stop, Source = RaptorMarkedStopSourceArrival\<rparr>
                    (stops_marked_for_next_round s)\<rparr>"
  from inv lab have ex: "segments s stop \<noteq> None" by (auto simp: DepartAt_invariant_def)
  have i3: "DepartAt_invariant F D ?s3"
    by (rule invariant_mark[OF inv ex]) simp
  have chk: "DepartAt_invariant F D t'" if "check_journey rt stop ?s3 = (t', b)" for t'
  proof -
    from ex obtain g where g: "segments ?s3 stop = Some g" by auto
    with i3 have oc: "origin_chain F stop (Spans g)"
      by (auto simp: DepartAt_invariant_def segments_from_origin_def)
    from that g have "t' = ?s3 \<or> (Spans g \<noteq> [] \<and> t' = ?s3\<lparr>potential_journeys_found :=
                         potential_journeys_found ?s3 @ [journey_of (Spans g)],
                       potential_journey_fingerprints :=
                         (potential_journey_fingerprints ?s3)(GetFingerPrint (format_id rt) g \<mapsto> True)\<rparr>)"
      by (auto simp: check_journey_def Let_def split: if_splits)
    then show ?thesis
    proof
      assume "t' = ?s3" with i3 show ?thesis by simp
    next
      assume a: "Spans g \<noteq> [] \<and> t' = ?s3\<lparr>potential_journeys_found :=
                         potential_journeys_found ?s3 @ [journey_of (Spans g)],
                       potential_journey_fingerprints :=
                         (potential_journey_fingerprints ?s3)(GetFingerPrint (format_id rt) g \<mapsto> True)\<rparr>"
      then have "FromUniqueStopID (hd (Spans g)) \<in> F"
        using oc by (simp add: origin_chain_nonempty)
      with a i3 show ?thesis
        by (auto simp: DepartAt_invariant_def journeys_from_origin_def journey_of_from journey_of_Legs)
    qed
  qed
  from run show ?thesis
    using i3 chk by (auto simp: mark_arrival_and_check_def Let_def split: if_splits)
qed

lemma invariant_DepartAt_following:
  assumes inv: "DepartAt_invariant F D s"
    and cur: "origin_chain F (GetUniqueStopID st) (segment_spans cur)"
    and run: "DepartAt_following rt input p m cur st i s = Inr (s', b)"
  shows "DepartAt_invariant F D s'"
proof -
  from run obtain fol s2 where imp: "DepartAt_improve input p m cur st fol s = Inr s2"
    and fin: "mark_arrival_and_check rt (ToStopsByUniqueStopId p) (GetUniqueStopID fol) s2 = (s', b)"
    unfolding DepartAt_following_def by (auto dest!: bindE_Inr)
  have "DepartAt_invariant F (insert (GetUniqueStopID fol) D) s2"
    by (rule invariant_DepartAt_improve[OF inv cur imp])
  then have "DepartAt_invariant F (insert (GetUniqueStopID fol) D) s'"
    by (rule invariant_mark_arrival_and_check[OF _ _ fin]) simp
  then show ?thesis by (rule invariant_mono) auto
qed

lemma invariant_DepartAt_board:
  assumes inv: "DepartAt_invariant F D s"
    and cur: "\<And>st. list_at (StopTimes (Input p)) i = Inr st
                \<Longrightarrow> origin_chain F (GetUniqueStopID st) (segment_spans cur)"
    and run: "DepartAt_board rt input p m cur i s = Inr (s', b)"
  shows "DepartAt_invariant F D s'"
proof -
  from run obtain st where st: "list_at (StopTimes (Input p)) i = Inr st"
    by (auto simp: DepartAt_board_def dest!: bindE_Inr)
  let ?s1 = "s\<lparr>trips_scanned_from_sequence := (trips_scanned_from_sequence s)
                 (GetUniqueTripID st \<mapsto> GetStopSequence st)\<rparr>"
  have i1: "DepartAt_invariant F D ?s1"
    using inv by (simp add: DepartAt_invariant_def)
  have loop: "DepartAt_invariant F D t'"
    if "for_iterator (DepartAt_following rt input p m cur st) it ?s1 = Inr t'" for it t'
    by (rule for_iterator_invariant[where P = "DepartAt_invariant F D", OF that i1])
      (rule invariant_DepartAt_following[OF _ cur[OF st]])
  from run st inv show ?thesis
    unfolding DepartAt_board_def
    by (auto simp: bindE_def Let_def split: if_splits sum.splits dest: loop)
qed

lemma list_at_Inr: "list_at xs i = Inr x \<Longrightarrow> 0 \<le> i \<and> i < int (length xs) \<and> x = xs ! nat i"
  by (auto simp: list_at_def split: if_splits)

lemma invariant_DepartAt_marked_stop:
  assumes inv: "DepartAt_invariant F D s" and lab: "ID m \<in> D"
    and idx: "stop_index_sound (StopTimes (Input p)) (Prepared_StopTimesByUniqueStopId p)"
    and run: "DepartAt_marked_stop rt input p m s = Inr s'"
  shows "DepartAt_invariant F D s'"
proof -
  let ?cur = "segments s (ID m)"
  from inv lab obtain g where g: "?cur = Some g" and oc: "origin_chain F (ID m) (Spans g)"
    by (auto simp: DepartAt_invariant_def segments_from_origin_def)
  have cur: "origin_chain F (GetUniqueStopID st) (segment_spans ?cur)"
    if "i \<in> set (elems (slice_of (Prepared_StopTimesByUniqueStopId p) (ID m)))"
      and "list_at (StopTimes (Input p)) i = Inr st" for i st
  proof -
    from that(1) obtain sl where "Prepared_StopTimesByUniqueStopId p (ID m) = Some sl" "i \<in> set (elems sl)"
      by (auto simp: slice_of_def nil_slice_def split: option.splits)
    with idx list_at_Inr[OF that(2)] have "GetUniqueStopID st = ID m"
      by (auto simp: stop_index_sound_def)
    with g oc show ?thesis by (simp add: segment_spans_def)
  qed
  from run have r: "for_iterator (DepartAt_board rt input p m ?cur)
      (NewSliceIterator (slice_of (Prepared_StopTimesByUniqueStopId p) (ID m)) False) s = Inr s'"
    by (simp add: DepartAt_marked_stop_def Let_def)
  show ?thesis
    by (rule for_iterator_invariant[where P = "DepartAt_invariant F D", OF r inv])
      (rule invariant_DepartAt_board, assumption, rule cur, simp_all add: NewSliceIterator_def)
qed

lemma set_range_order: "set (range_order seed xs) \<subseteq> set xs"
proof (induction seed xs rule: range_order.induct)
  case (3 c seed x xs)
  let ?l = "x # xs" and ?i = "c mod length (x # xs)"
  have i: "?i < length ?l" by simp
  have "set (take ?i ?l @ drop (Suc ?i) ?l) \<subseteq> set ?l"
    using set_take_subset[of ?i ?l] set_drop_subset[of "Suc ?i" ?l] by auto
  moreover have "?l ! ?i \<in> set ?l" using i by (rule nth_mem)
  ultimately show ?case using 3 by (auto simp del: nth_Cons_Suc nth.simps take_Suc_Cons drop_Suc_Cons)
qed simp_all

lemma initial_segments_fold:
  "fold (\<lambda>stop m. m(GetUniqueID stop \<mapsto>
          \<lparr>UniqueStopID = GetUniqueID stop, ArrivalTimeInSeconds = time, Spans = []\<rparr>)) stops m0 k
     = Some g
   \<Longrightarrow> m0 k = Some g \<or> (k \<in> GetUniqueID ` set stops \<and> Spans g = [])"
  by (induction stops arbitrary: m0) (fastforce split: if_splits)+

lemma initial_segments_dom:
  "k \<in> GetUniqueID ` set stops \<or> m0 k \<noteq> None \<Longrightarrow>
   fold (\<lambda>stop m. m(GetUniqueID stop \<mapsto>
          \<lparr>UniqueStopID = GetUniqueID stop, ArrivalTimeInSeconds = time, Spans = []\<rparr>)) stops m0 k
     \<noteq> None"
  by (induction stops arbitrary: m0) auto

lemma initial_marks_fold:
  "e \<in> set (fold (\<lambda>stop m. go_map_store (GetUniqueID stop)
             \<lparr>ID = GetUniqueID stop, Source = RaptorMarkedStopSourceArrival\<rparr> m) stops m0)
   \<Longrightarrow> e \<in> set m0 \<or> (fst e \<in> GetUniqueID ` set stops \<and> ID (snd e) = fst e)"
proof (induction stops arbitrary: m0)
  case Nil
  then show ?case by simp
next
  case (Cons a stops)
  from Cons.IH[OF Cons.prems[simplified]] show ?case
    using set_go_map_store[of "GetUniqueID a" "\<lparr>ID = GetUniqueID a, Source = RaptorMarkedStopSourceArrival\<rparr>" m0]
    by auto
qed

lemma stop_index_sound_file:
  assumes "stop_index_sound full m" and "n < length full" and "GetUniqueStopID (full ! n) = k"
  shows "stop_index_sound full (file_index grow k n m)"
  using assms
  by (auto simp: stop_index_sound_def file_index_def Let_def elems_go_append slice_of_def
      nil_slice_def split: if_splits option.splits)

lemma index_stop_times_sound:
  assumes "index_stop_times grow False hb rest n (bs, bt) = (bs', bt')"
    and "full = pre @ rest" and "n = length pre"
    and "stop_index_sound full bs"
  shows "stop_index_sound full bs'"
  using assms
proof (induction rest arbitrary: n bs bt pre)
  case Nil
  then show ?case by simp
next
  case (Cons a rest)
  have a: "full ! n = a" "n < length full" using Cons.prems(2,3) by auto
  have s1: "stop_index_sound full (file_index grow (GetUniqueStopID a) n bs)"
    by (rule stop_index_sound_file[OF Cons.prems(4) a(2)]) (simp add: a(1))
  show ?case
    by (rule Cons.IH[OF _ _ _ s1, where pre = "pre @ [a]"])
      (use Cons.prems in auto)
qed

lemma index_stop_times_keeps_supplied:
  "index_stop_times grow True hb rest n (bs, bt) = (bs', bt') \<Longrightarrow> bs' = bs"
  by (induction rest arbitrary: n bt) auto

lemma PrepareRaptorInput_stop_index_sound:
  assumes "supplied_stop_index_sound input"
  shows "stop_index_sound (StopTimes (Input (PrepareRaptorInput rt input)))
           (Prepared_StopTimesByUniqueStopId (PrepareRaptorInput rt input))"
proof (cases "StopTimesByUniqueStopId input")
  case (Some m)
  with assms show ?thesis
    by (cases "index_stop_times (growslice rt) True (StopTimesByUniqueTripServiceId input \<noteq> None) (StopTimes input) 0 (m, case StopTimesByUniqueTripServiceId input of None \<Rightarrow> Map.empty | Some m \<Rightarrow> m)")
      (auto simp: PrepareRaptorInput_def Let_def supplied_stop_index_sound_def
        dest: index_stop_times_keeps_supplied)
next
  case None
  obtain bs' bt' where b: "index_stop_times (growslice rt) False
      (StopTimesByUniqueTripServiceId input \<noteq> None) (StopTimes input) 0
      (Map.empty, case StopTimesByUniqueTripServiceId input of None \<Rightarrow> Map.empty | Some m \<Rightarrow> m)
      = (bs', bt')"
    by (cases "index_stop_times (growslice rt) False
      (StopTimesByUniqueTripServiceId input \<noteq> None) (StopTimes input) 0
      (Map.empty, case StopTimesByUniqueTripServiceId input of None \<Rightarrow> Map.empty | Some m \<Rightarrow> m)")
  have "stop_index_sound (StopTimes input) bs'"
    by (rule index_stop_times_sound[OF b, where pre = "[]"])
      (simp_all add: stop_index_sound_def)
  with None b show ?thesis
    by (simp add: PrepareRaptorInput_def Let_def)
qed

lemma invariant_DepartAt_rounds:
  assumes idx: "stop_index_sound (StopTimes (Input p)) (Prepared_StopTimesByUniqueStopId p)"
    and run: "DepartAt_rounds rt input p n r marked s = Inr s'"
    and inv: "DepartAt_invariant F {} s"
    and marked: "marks_have_segments (segments s) marked"
  shows "DepartAt_invariant F {} s'"
  using run inv marked
proof (induction n arbitrary: r marked s)
  case 0
  then show ?case by simp
next
  case (Suc n)
  let ?D = "fst ` set marked"
  let ?s0 = "s\<lparr>stops_marked_for_next_round := []\<rparr>"
  from Suc.prems(1) obtain t where
    round: "for_range (DepartAt_marked_stop rt input p)
              (map snd (range_order (map_iteration rt r) marked)) ?s0 = Inr t"
    and rest: "DepartAt_rounds rt input p n (Suc r) (stops_marked_for_next_round t) t = Inr s'"
    by (auto split: sum.splits)
  have i0: "DepartAt_invariant F ?D ?s0"
    using Suc.prems(2,3)
    by (auto simp: DepartAt_invariant_def marks_have_segments_def)
  have ids: "ID m \<in> ?D" if "m \<in> set (map snd (range_order (map_iteration rt r) marked))" for m
  proof -
    from that obtain e where "e \<in> set marked" "m = snd e"
      using set_range_order[of "map_iteration rt r" marked] by auto
    with Suc.prems(3) show ?thesis by (auto simp: marks_have_segments_def)
  qed
  have it: "DepartAt_invariant F ?D t"
    by (rule for_range_invariant[where P = "DepartAt_invariant F ?D", OF round i0])
      (rule invariant_DepartAt_marked_stop[OF _ ids idx])
  show ?case
    by (rule Suc.IH[OF rest]) (use it in \<open>auto simp: DepartAt_invariant_def\<close>)
qed

text \<open>
  C10, amended. When the supplied stop index is nil, or files under each stop id only
  stop times at that stop, every journey \<open>SimpleRaptorDepartAt\<close> returns begins at an
  origin: its \<open>FromUniqueStopID\<close> is that of its first leg and the unique id of a stop
  of \<open>FromStops\<close>.
\<close>

theorem SimpleRaptorDepartAt_journeys_begin_at_origin:
  assumes "supplied_stop_index_sound input"
    and "SimpleRaptorDepartAt rt input = Inr js" and "j \<in> set js"
  shows "Legs j \<noteq> []
       \<and> Journey_FromUniqueStopID j = FromUniqueStopID (hd (Legs j))
       \<and> Journey_FromUniqueStopID j \<in> GetUniqueID ` set (FromStops input)"
proof -
  let ?F = "GetUniqueID ` set (FromStops input)"
  let ?p = "PrepareRaptorInput rt input"
  let ?s0 = "initial_state (FromStops input) (TimeInSeconds input)"
  from assms(2) obtain s where r: "DepartAt_rounds rt input ?p (nat (MaximumTransfers input)) 0
       (initial_marks (FromStops input)) ?s0 = Inr s"
    and js: "js = potential_journeys_found s"
    by (auto simp: SimpleRaptorDepartAt_def Let_def dest!: bindE_Inr)
  have i0: "DepartAt_invariant ?F {} ?s0"
    using initial_segments_fold[of _ "FromStops input" Map.empty]
    by (fastforce simp: DepartAt_invariant_def initial_state_def initial_segments_def
        segments_from_origin_def marks_have_segments_def journeys_from_origin_def origin_chain_def)
  have m0: "marks_have_segments (segments ?s0) (initial_marks (FromStops input))"
    using initial_marks_fold[of _ "FromStops input" "[]"]
      initial_segments_dom[of _ "FromStops input" Map.empty]
    by (fastforce simp: marks_have_segments_def initial_marks_def initial_state_def
        initial_segments_def)
  have "DepartAt_invariant ?F {} s"
    by (rule invariant_DepartAt_rounds[OF PrepareRaptorInput_stop_index_sound[OF assms(1)] r i0 m0])
  then have "journeys_from_origin ?F js"
    using js by (simp add: DepartAt_invariant_def)
  with assms(3) have "Legs j \<noteq> []"
    and "Journey_FromUniqueStopID j = FromUniqueStopID (hd (Legs j))"
    and "Journey_FromUniqueStopID j \<in> ?F"
    unfolding journeys_from_origin_def by blast+
  then show ?thesis by simp
qed

theorem SimpleRaptorDepartAt_journeys_begin_at_origin_witness:
  "supplied_stop_index_sound two_trips_input
   \<and> Journey_FromUniqueStopID (journey_of [ride ''A'' ''D'' ''Y'' 1 2 110 210]) = ''A''
   \<and> ''A'' \<in> GetUniqueID ` set (FromStops two_trips_input)"
proof -
  have sound: "supplied_stop_index_sound two_trips_input"
    by (simp add: supplied_stop_index_sound_def two_trips_input_def plain_input_def)
  have "Journey_FromUniqueStopID (journey_of [ride ''A'' ''D'' ''Y'' 1 2 110 210])
          \<in> GetUniqueID ` set (FromStops two_trips_input)"
    using SimpleRaptorDepartAt_journeys_begin_at_origin
            [OF sound two_trips_DepartAt_run, of "journey_of [ride ''A'' ''D'' ''Y'' 1 2 110 210]",
             THEN conjunct2, THEN conjunct2]
    by simp
  moreover have "Journey_FromUniqueStopID (journey_of [ride ''A'' ''D'' ''Y'' 1 2 110 210]) = ''A''"
    by (simp add: journey_of_def ride_def)
  ultimately show ?thesis using sound by simp
qed

end
